theory Spec2Isabelle
  imports Main "HOL-Library.Sublist"
begin

section \<open>Data model\<close>

text \<open>
  The configuration file \<^verbatim>\<open>.galaxy.yaml\<close> as the Go structs of the package declare it:
  \<^verbatim>\<open>Transform\<close>, \<^verbatim>\<open>Environment\<close>, \<^verbatim>\<open>Namespaces\<close>, \<^verbatim>\<open>Spec\<close> and \<^verbatim>\<open>DotGalaxy\<close>.
  Go slices are lists, Go strings are \<^typ>\<open>string\<close>.
\<close>

record Transform =
  NamespaceSuffix :: string
  ReleasePrefix :: string

record Environment =
  Name :: string
  SkipOnNamespaces :: "string list"
  FileSuffixes :: "string list"
  Transform :: Transform

record Namespaces =
  BaseDir :: string
  Extensions :: "string list"
  Names :: "string list"

record Spec =
  Environments :: "Environment list"
  Namespaces :: Namespaces

record DotGalaxy =
  Spec :: Spec

text \<open>
  Go errors in this package are plain message values (\<^verbatim>\<open>fmt.Errorf\<close>, \<^verbatim>\<open>errors.New\<close>).
  The constructor records the kind that the specification gives to the place where the
  error is built, its argument is the message the code builds. \<open>ExternalError\<close> stands
  for an error handed back by an external applier.
\<close>

datatype error =
    ConfigurationError string
  | NotPlannedError string
  | NotFoundError string
  | ConflictError string
  | ExternalError string

text \<open>
  The runtime configuration \<^verbatim>\<open>Config\<close>, whose declaration is not among the sources: the
  record holds what the orchestrator reads from it, that is the values of
  \<^verbatim>\<open>GetEnvironments()\<close> and \<^verbatim>\<open>GetNamespaces()\<close> (the requested scopes of section 6 of the
  specification, as lists, empty for ``all declared'') and the two flags.
\<close>

record Config =
  GetEnvironments :: "string list"
  GetNamespaces :: "string list"
  DryRun :: bool
  SkipSecrets :: bool

section \<open>DotGalaxy\<close>

text \<open>
  Modelled from the spec: \<^verbatim>\<open>stringSliceContains\<close> is not among the sources; section 4.3
  (``skips environments not in the requested filter'') makes it membership of a string in
  a slice.
\<close>

fun stringSliceContains :: "string list \<Rightarrow> string \<Rightarrow> bool" where
  "stringSliceContains [] s = False"
| "stringSliceContains (x # xs) s = (if x = s then True else stringSliceContains xs s)"

definition ListNamespaces :: "DotGalaxy \<Rightarrow> string list" where
  "ListNamespaces d = Names (Namespaces (Spec d))"

text \<open>\<^verbatim>\<open>ListEnvironments\<close> appends the name of each environment, in order.\<close>

fun ListEnvironments_loop :: "Environment list \<Rightarrow> string list \<Rightarrow> string list" where
  "ListEnvironments_loop [] list = list"
| "ListEnvironments_loop (env # envs) list = ListEnvironments_loop envs (list @ [Name env])"

definition ListEnvironments :: "DotGalaxy \<Rightarrow> string list" where
  "ListEnvironments d = ListEnvironments_loop (Environments (Spec d)) []"

text \<open>
  \<^verbatim>\<open>GetEnvironment\<close> walks the environments in order and returns at the first one whose
  name is the requested one; after the loop it returns the error.
\<close>

fun GetEnvironment_loop :: "Environment list \<Rightarrow> string \<Rightarrow> error + Environment" where
  "GetEnvironment_loop [] name = Inl (ConfigurationError (''Environment is not found: '' @ name))"
| "GetEnvironment_loop (env # envs) name =
     (if name = Name env then Inr env else GetEnvironment_loop envs name)"

definition GetEnvironment :: "DotGalaxy \<Rightarrow> string \<Rightarrow> error + Environment" where
  "GetEnvironment d name = GetEnvironment_loop (Environments (Spec d)) name"

text \<open>
  The file system, \<^verbatim>\<open>path.Join\<close>, the \<^verbatim>\<open>Context\<close> type with \<^verbatim>\<open>NewContext\<close> and
  \<^verbatim>\<open>InspectDir\<close>, the planner (\<^verbatim>\<open>NewPlan\<close> with \<^verbatim>\<open>ContextForEnvironment\<close> and its
  \<^verbatim>\<open>OriginalNs\<close> field) and the two appliers are used by the orchestrator and declared
  elsewhere. They are parameters here, so every statement about the orchestrator holds
  whatever they compute:
  \<^item> \<open>isDir p\<close>: the path \<open>p\<close> is a directory;
  \<^item> \<open>pathJoin b n\<close>: \<^verbatim>\<open>path.Join(b, n)\<close>;
  \<^item> \<open>newContext\<close>: the empty context of \<^verbatim>\<open>NewContext()\<close>;
  \<^item> \<open>inspectDir ctx ns dir exts\<close>: \<^verbatim>\<open>ctx.InspectDir(ns, dir, exts)\<close>, the error or the
    context after the call;
  \<^item> \<open>contextForEnvironment env nss ctx\<close>: \<^verbatim>\<open>NewPlan(env, nss, ctx).ContextForEnvironment()\<close>,
    the error, or the modified context with the plan's \<^verbatim>\<open>OriginalNs\<close> map;
  \<^item> \<open>applier tr c\<close>: what the external call \<open>c\<close> returns after the calls \<open>tr\<close> were
    made (\<open>None\<close> is Go's \<^verbatim>\<open>nil\<close>).
  The map \<^verbatim>\<open>OriginalNs\<close> (transformed namespace to original namespace) is an association
  list: \<^verbatim>\<open>Apply\<close> ranges over it, and the order of the list is the order in which the
  range visits the entries.
\<close>

datatype handler = VaultHandler | Landscaper

datatype method_name = BootstrapMethod | ApplyMethod

datatype arg = StringArg string | BoolArg bool

datatype call = Call handler method_name "arg list"

record 'ctx externals =
  isDir :: "string \<Rightarrow> bool"
  pathJoin :: "string \<Rightarrow> string \<Rightarrow> string"
  newContext :: 'ctx
  inspectDir :: "'ctx \<Rightarrow> string \<Rightarrow> string \<Rightarrow> string list \<Rightarrow> error + 'ctx"
  contextForEnvironment ::
    "Environment \<Rightarrow> string list \<Rightarrow> 'ctx \<Rightarrow> error + ('ctx \<times> (string \<times> string) list)"
  applier :: "call list \<Rightarrow> call \<Rightarrow> error option"

definition GetNamespaceDir :: "'ctx externals \<Rightarrow> DotGalaxy \<Rightarrow> string \<Rightarrow> error + string" where
  "GetNamespaceDir x d name =
     (if \<not> stringSliceContains (Names (Namespaces (Spec d))) name
      then Inl (ConfigurationError (''namespace informed does not exist: '' @ name))
      else if \<not> isDir x (BaseDir (Namespaces (Spec d)))
      then Inl (NotFoundError (''baseDir is not a directory: '' @ BaseDir (Namespaces (Spec d))))
      else Inr (pathJoin x (BaseDir (Namespaces (Spec d))) name))"

section \<open>Galaxy\<close>

text \<open>
  The orchestrator's state. \<^verbatim>\<open>Data\<close> is a map from environment name to a list of
  contexts; reading a missing key gives the \<^verbatim>\<open>nil\<close> slice, which \<open>slice_at\<close> writes out.
  The logger only writes log lines, except for \<^verbatim>\<open>Fatalf\<close> (see \<open>Loop\<close>).
\<close>

record 'ctx Galaxy =
  dotGalaxy :: DotGalaxy
  cfg :: Config
  original :: "string \<rightharpoonup> 'ctx list"
  Modified :: "string \<rightharpoonup> 'ctx list"
  envOriginalNs :: "string \<rightharpoonup> (string \<times> string) list"

definition NewGalaxy :: "DotGalaxy \<Rightarrow> Config \<Rightarrow> 'ctx Galaxy" where
  "NewGalaxy d c =
     \<lparr>dotGalaxy = d, cfg = c, original = Map.empty, Modified = Map.empty,
      envOriginalNs = Map.empty\<rparr>"

definition slice_at :: "(string \<rightharpoonup> 'a list) \<Rightarrow> string \<Rightarrow> 'a list" where
  "slice_at m k = (case m k of None \<Rightarrow> [] | Some xs \<Rightarrow> xs)"

text \<open>
  How a call of the orchestrator ends: \<open>Return None\<close> is \<^verbatim>\<open>return nil\<close>,
  \<open>Return (Some e)\<close> is \<^verbatim>\<open>return err\<close>, and \<open>Exit e\<close> is the process ending inside
  \<^verbatim>\<open>logger.Fatalf\<close>, which logs the error \<open>e\<close> and then calls \<^verbatim>\<open>os.Exit(1)\<close> (logrus), so
  that the \<^verbatim>\<open>return err\<close> written after it is never reached.
\<close>

datatype result = Return "error option" | Exit error

text \<open>
  The inner loop of \<^verbatim>\<open>Loop\<close> over the namespaces: \<open>Inr ctx\<close> is the context after the
  last namespace, \<open>Inl r\<close> leaves \<^verbatim>\<open>Loop\<close> with \<open>r\<close>.
\<close>

fun Loop_namespaces ::
  "'ctx externals \<Rightarrow> DotGalaxy \<Rightarrow> string list \<Rightarrow> string list \<Rightarrow> 'ctx \<Rightarrow> result + 'ctx" where
  "Loop_namespaces x d exts [] ctx = Inr ctx"
| "Loop_namespaces x d exts (ns # nss) ctx =
     (case GetNamespaceDir x d ns of
        Inl err \<Rightarrow> Inl (Return (Some err))
      | Inr baseDir \<Rightarrow>
          (case inspectDir x ctx ns baseDir exts of
             Inl err \<Rightarrow> Inl (Exit err)
           | Inr ctx' \<Rightarrow> Loop_namespaces x d exts nss ctx'))"

text \<open>
  The outer loop over the environment names, with the callback \<^verbatim>\<open>fn\<close> as a function of
  the environment name, the context and the state; it returns its error and the state it
  leaves.
\<close>

type_synonym 'ctx actOnContext =
  "string \<Rightarrow> 'ctx \<Rightarrow> 'ctx Galaxy \<Rightarrow> error option \<times> 'ctx Galaxy"

fun Loop_environments ::
  "'ctx externals \<Rightarrow> DotGalaxy \<Rightarrow> string list \<Rightarrow> 'ctx actOnContext \<Rightarrow> string list
     \<Rightarrow> 'ctx Galaxy \<Rightarrow> result \<times> 'ctx Galaxy" where
  "Loop_environments x d exts fn [] g = (Return None, g)"
| "Loop_environments x d exts fn (env # envs) g =
     (case Loop_namespaces x d exts (ListNamespaces d) (newContext x) of
        Inl r \<Rightarrow> (r, g)
      | Inr ctx \<Rightarrow>
          (case fn env ctx g of
             (Some err, g') \<Rightarrow> (Return (Some err), g')
           | (None, g') \<Rightarrow> Loop_environments x d exts fn envs g'))"

definition Loop :: "'ctx externals \<Rightarrow> 'ctx actOnContext \<Rightarrow> 'ctx Galaxy \<Rightarrow> result \<times> 'ctx Galaxy" where
  "Loop x fn g =
     Loop_environments x (dotGalaxy g) (Extensions (Namespaces (Spec (dotGalaxy g)))) fn
       (ListEnvironments (dotGalaxy g)) g"

text \<open>The callback of \<^verbatim>\<open>Inspect\<close> and \<^verbatim>\<open>Inspect\<close> itself.\<close>

definition Inspect_fn :: "'ctx actOnContext" where
  "Inspect_fn env ctx g =
     (None, g\<lparr>original := (original g)(env \<mapsto> slice_at (original g) env @ [ctx])\<rparr>)"

definition Inspect :: "'ctx externals \<Rightarrow> 'ctx Galaxy \<Rightarrow> result \<times> 'ctx Galaxy" where
  "Inspect x g =
     (if \<not> isDir x (BaseDir (Namespaces (Spec (dotGalaxy g))))
      then (Return (Some (NotFoundError
              (''base directory not found at: '' @ BaseDir (Namespaces (Spec (dotGalaxy g)))))), g)
      else Loop x Inspect_fn g)"

text \<open>The callback of \<^verbatim>\<open>Plan\<close> and \<^verbatim>\<open>Plan\<close> itself.\<close>

definition Plan_fn :: "'ctx externals \<Rightarrow> 'ctx actOnContext" where
  "Plan_fn x envName ctx g =
     (if length (GetEnvironments (cfg g)) > 0
         \<and> \<not> stringSliceContains (GetEnvironments (cfg g)) envName
      then (None, g)
      else
        (case GetEnvironment (dotGalaxy g) envName of
           Inl err \<Rightarrow> (Some err, g)
         | Inr env \<Rightarrow>
             (case contextForEnvironment x env (GetNamespaces (cfg g)) ctx of
                Inl err \<Rightarrow> (Some err, g)
              | Inr (modified, originalNs) \<Rightarrow>
                  (None, g\<lparr>envOriginalNs := (envOriginalNs g)(envName \<mapsto> originalNs),
                            Modified := (Modified g)(envName \<mapsto>
                               slice_at (Modified g) envName @ [modified])\<rparr>))))"

definition Plan :: "'ctx externals \<Rightarrow> 'ctx Galaxy \<Rightarrow> result \<times> 'ctx Galaxy" where
  "Plan x g = Loop x (Plan_fn x) g"

text \<open>
  \<^verbatim>\<open>probeSingleEnv\<close>. The requested list has exactly one element when it is \<open>[envName]\<close>.
\<close>

definition probeSingleEnv :: "'ctx Galaxy \<Rightarrow> error + string" where
  "probeSingleEnv g =
     (if length (GetEnvironments (cfg g)) \<noteq> 1
      then Inl (ConfigurationError ''a single environment must be informed'')
      else
        (let envName = hd (GetEnvironments (cfg g)) in
         if Modified g envName = None
         then Inl (NotPlannedError
                (''environment '' @ [CHR 0x27] @ envName @ [CHR 0x27] @ '' is not found on planned data''))
         else if envOriginalNs g envName = None
         then Inl (NotPlannedError
                (''environment '' @ [CHR 0x27] @ envName @ [CHR 0x27]
                   @ '' is not found on original namespace names map''))
         else Inr envName))"

text \<open>
  \<^verbatim>\<open>Apply\<close> returns its result and the trace of the calls it made on the appliers, in the
  order it made them; a failing call is the last of the trace. \<open>invoke\<close> makes one call:
  \<open>Inl\<close> carries the error with the trace, \<open>Inr\<close> the trace after a call that returned
  \<^verbatim>\<open>nil\<close>. \<^verbatim>\<open>NewVaultHandler\<close> and \<^verbatim>\<open>NewLandscaper\<close> build the handlers and return no
  error; the vault handler is built, and called, only if \<^verbatim>\<open>SkipSecrets\<close> is false.
\<close>

definition invoke ::
  "'ctx externals \<Rightarrow> call \<Rightarrow> call list \<Rightarrow> (error \<times> call list) + call list" where
  "invoke x c tr =
     (case applier x tr c of Some err \<Rightarrow> Inl (err, tr @ [c]) | None \<Rightarrow> Inr (tr @ [c]))"

text \<open>The body of the loop of \<^verbatim>\<open>Apply\<close>, for one entry of the original-namespace map.\<close>

definition Apply_namespace ::
  "'ctx externals \<Rightarrow> Config \<Rightarrow> string \<times> string \<Rightarrow> call list \<Rightarrow> (error \<times> call list) + call list" where
  "Apply_namespace x c entry tr =
     (case entry of (ns, originalNs) \<Rightarrow>
        (case
           (if \<not> SkipSecrets c then
              (case invoke x (Call VaultHandler BootstrapMethod [StringArg ns, BoolArg (DryRun c)]) tr of
                 Inl f \<Rightarrow> Inl f
               | Inr tr1 \<Rightarrow> invoke x (Call VaultHandler ApplyMethod []) tr1)
            else Inr tr)
         of
           Inl f \<Rightarrow> Inl f
         | Inr tr2 \<Rightarrow>
             (case invoke x (Call Landscaper BootstrapMethod
                      [StringArg ns, StringArg originalNs, BoolArg (DryRun c)]) tr2 of
                Inl f \<Rightarrow> Inl f
              | Inr tr3 \<Rightarrow> invoke x (Call Landscaper ApplyMethod []) tr3)))"

fun Apply_loop ::
  "'ctx externals \<Rightarrow> Config \<Rightarrow> (string \<times> string) list \<Rightarrow> call list \<Rightarrow> result \<times> call list" where
  "Apply_loop x c [] tr = (Return None, tr)"
| "Apply_loop x c (entry # entries) tr =
     (case Apply_namespace x c entry tr of
        Inl (err, tr') \<Rightarrow> (Return (Some err), tr')
      | Inr tr' \<Rightarrow> Apply_loop x c entries tr')"

definition Apply :: "'ctx externals \<Rightarrow> 'ctx Galaxy \<Rightarrow> result \<times> call list" where
  "Apply x g =
     (case probeSingleEnv g of
        Inl err \<Rightarrow> (Return (Some err), [])
      | Inr envName \<Rightarrow>
          (case GetEnvironment (dotGalaxy g) envName of
             Inl err \<Rightarrow> (Return (Some err), [])
           | Inr e \<Rightarrow> Apply_loop x (cfg g) (slice_at (envOriginalNs g) envName) []))"

text \<open>
  The calls that the body of the loop of \<^verbatim>\<open>Apply\<close> makes for one entry of the
  original-namespace map when none of them fails, in the order of the code.
\<close>

definition namespace_calls :: "Config \<Rightarrow> string \<times> string \<Rightarrow> call list" where
  "namespace_calls c entry =
     (case entry of (ns, originalNs) \<Rightarrow>
        (if SkipSecrets c then []
         else [Call VaultHandler BootstrapMethod [StringArg ns, BoolArg (DryRun c)],
               Call VaultHandler ApplyMethod []])
        @ [Call Landscaper BootstrapMethod [StringArg ns, StringArg originalNs, BoolArg (DryRun c)],
           Call Landscaper ApplyMethod []])"

section \<open>The planner\<close>

text \<open>
  Modelled from the spec: the \<^verbatim>\<open>Context\<close> type is not among the sources; this is the
  context of section 3, the namespaces in the order of their discovery, each with its file
  records. A file record carries its namespace, its path, the file name that the suffixes
  of an environment are matched against, and its release identity.
\<close>

record FileRecord =
  namespace :: string
  path :: string
  fileName :: string
  release :: string

type_synonym Context = "(string \<times> FileRecord list) list"

text \<open>
  Modelled from the spec: step (d) of section 4.2, for a planner that is not among the
  sources. A file is kept when the environment has no file suffixes, or when its name ends
  in one of them.
\<close>

definition eligibleFile :: "Environment \<Rightarrow> FileRecord \<Rightarrow> bool" where
  "eligibleFile env f =
     (if FileSuffixes env = [] then True
      else list_ex (\<lambda>s. suffix s (fileName f)) (FileSuffixes env))"

text \<open>
  Modelled from the spec: steps (e) and (f) of section 4.2. The record gets the transformed
  namespace and the release prefix before its release identity; its path stays.
\<close>

definition transformFile :: "Environment \<Rightarrow> string \<Rightarrow> FileRecord \<Rightarrow> FileRecord" where
  "transformFile env transformed f =
     f\<lparr>namespace := transformed, release := ReleasePrefix (Transform env) @ release f\<rparr>"

text \<open>
  Modelled from the spec: steps (a) and (b) of section 4.2. A namespace is left out when
  the namespace filter is non-empty and does not list it, and when the environment lists
  it in \<open>SkipOnNamespaces\<close>.
\<close>

definition inScope :: "Environment \<Rightarrow> string list \<Rightarrow> string \<Rightarrow> bool" where
  "inScope env namespaceFilter ns =
     (if namespaceFilter \<noteq> [] \<and> \<not> stringSliceContains namespaceFilter ns then False
      else if stringSliceContains (SkipOnNamespaces env) ns then False
      else True)"

text \<open>
  Modelled from the spec: \<^verbatim>\<open>ContextForEnvironment\<close> and the \<^verbatim>\<open>Plan\<close> type are not among
  the sources; this is the algorithm of section 4.2. For each namespace of the base
  context, in order: skip it when it is not in scope (a, b); append the namespace suffix to
  get the transformed name, fail with a \<open>ConflictError\<close> when the mapping has an entry
  for the transformed name already, and record the pair otherwise (c); append the kept
  and transformed file records, under the transformed namespace, to the result (d, e, f).
\<close>

fun ContextForEnvironment_loop ::
  "Environment \<Rightarrow> string list \<Rightarrow> Context \<Rightarrow> Context \<Rightarrow> (string \<times> string) list
     \<Rightarrow> error + (Context \<times> (string \<times> string) list)" where
  "ContextForEnvironment_loop env namespaceFilter [] modified originalNs =
     Inr (modified, originalNs)"
| "ContextForEnvironment_loop env namespaceFilter ((ns, files) # rest) modified originalNs =
     (if \<not> inScope env namespaceFilter ns
      then ContextForEnvironment_loop env namespaceFilter rest modified originalNs
      else
        (let transformed = ns @ NamespaceSuffix (Transform env) in
         if map_of originalNs transformed \<noteq> None
         then Inl (ConflictError transformed)
         else ContextForEnvironment_loop env namespaceFilter rest
                (modified @ [(transformed,
                    map (transformFile env transformed) (filter (eligibleFile env) files))])
                (originalNs @ [(transformed, ns)])))"

text \<open>
  Modelled from the spec: the public contract of section 4.2, the loop started with an
  empty result and an empty mapping.
\<close>

definition ContextForEnvironment ::
  "Environment \<Rightarrow> string list \<Rightarrow> Context \<Rightarrow> error + (Context \<times> (string \<times> string) list)" where
  "ContextForEnvironment env namespaceFilter baseContext =
     ContextForEnvironment_loop env namespaceFilter baseContext [] []"

section \<open>Planning as a list of writes\<close>

text \<open>
  The two assignments at the end of the callback of \<^verbatim>\<open>Plan\<close>, as one step on the
  state, and a list of such steps.
\<close>

definition Plan_write ::
  "string \<Rightarrow> 'ctx \<Rightarrow> (string \<times> string) list \<Rightarrow> 'ctx Galaxy \<Rightarrow> 'ctx Galaxy" where
  "Plan_write envName modified originalNs g =
     g\<lparr>envOriginalNs := (envOriginalNs g)(envName \<mapsto> originalNs),
       Modified := (Modified g)(envName \<mapsto> slice_at (Modified g) envName @ [modified])\<rparr>"

fun Plan_writes ::
  "(string \<times> 'ctx \<times> (string \<times> string) list) list \<Rightarrow> 'ctx Galaxy \<Rightarrow> 'ctx Galaxy" where
  "Plan_writes [] g = g"
| "Plan_writes ((envName, modified, originalNs) # ws) g =
     Plan_writes ws (Plan_write envName modified originalNs g)"

text \<open>
  What a pass of \<^verbatim>\<open>Plan\<close> over the environment names returns and writes, given the
  context \<open>ctx\<close> that the inspection of the namespaces builds: the error of the first
  environment whose planning fails, if any, and the writes made before it. It depends
  on the configuration, not on the planned data.
\<close>

fun Plan_log ::
  "'ctx externals \<Rightarrow> DotGalaxy \<Rightarrow> Config \<Rightarrow> 'ctx \<Rightarrow> string list
     \<Rightarrow> error option \<times> (string \<times> 'ctx \<times> (string \<times> string) list) list" where
  "Plan_log x d c ctx [] = (None, [])"
| "Plan_log x d c ctx (envName # envs) =
     (if length (GetEnvironments c) > 0 \<and> \<not> stringSliceContains (GetEnvironments c) envName
      then Plan_log x d c ctx envs
      else
        (case GetEnvironment d envName of
           Inl err \<Rightarrow> (Some err, [])
         | Inr env \<Rightarrow>
             (case contextForEnvironment x env (GetNamespaces c) ctx of
                Inl err \<Rightarrow> (Some err, [])
              | Inr (modified, originalNs) \<Rightarrow>
                  (case Plan_log x d c ctx envs of
                     (r, ws) \<Rightarrow> (r, (envName, modified, originalNs) # ws)))))"

text \<open>
  The states of an orchestrator built by \<^verbatim>\<open>NewGalaxy\<close> on which \<^verbatim>\<open>Plan\<close> was called any
  number of times; the directory tree and the planner may differ from call to call.
\<close>

inductive planned_states :: "DotGalaxy \<Rightarrow> Config \<Rightarrow> 'ctx Galaxy \<Rightarrow> bool" where
  new: "planned_states d c (NewGalaxy d c)"
| plan: "planned_states d c g \<Longrightarrow> planned_states d c (snd (Plan x g))"

section \<open>A small repository\<close>

text \<open>
  A configuration with the environments \<open>dev\<close> and \<open>prod\<close> and the namespaces
  \<open>app\<close> and \<open>db\<close>, and a directory tree in which \<open>ns\<close>, \<open>ns/app\<close> and \<open>ns/db\<close> are
  the directories, each namespace directory holding one release file. The appliers of
  \<open>example_externals\<close> never fail. These are the concrete inputs of the examples below.
\<close>

definition example_environment :: "string \<Rightarrow> Environment" where
  "example_environment n =
     \<lparr>Name = n, SkipOnNamespaces = [], FileSuffixes = [],
      Transform = \<lparr>NamespaceSuffix = ''-'' @ n, ReleasePrefix = n @ ''-''\<rparr>\<rparr>"

definition example_dotGalaxy :: "string list \<Rightarrow> DotGalaxy" where
  "example_dotGalaxy names =
     \<lparr>Spec = \<lparr>Environments = [example_environment ''dev'', example_environment ''prod''],
               Namespaces = \<lparr>BaseDir = ''ns'', Extensions = [''.yaml''], Names = names\<rparr>\<rparr>\<rparr>"

definition example_config :: "string list \<Rightarrow> bool \<Rightarrow> Config" where
  "example_config envs skip =
     \<lparr>GetEnvironments = envs, GetNamespaces = [], DryRun = False, SkipSecrets = skip\<rparr>"

definition example_inspectDir ::
  "Context \<Rightarrow> string \<Rightarrow> string \<Rightarrow> string list \<Rightarrow> error + Context" where
  "example_inspectDir ctx ns dir exts =
     (if dir = ''ns/app'' \<or> dir = ''ns/db''
      then Inr (ctx @ [(ns, [\<lparr>namespace = ns, path = dir @ ''/web.yaml'',
                               fileName = ''web'', release = ''web''\<rparr>])])
      else Inl (NotFoundError dir))"

definition example_externals :: "Context externals" where
  "example_externals =
     \<lparr>isDir = (\<lambda>p. p = ''ns'' \<or> p = ''ns/app'' \<or> p = ''ns/db''),
      pathJoin = (\<lambda>b n. b @ ''/'' @ n),
      newContext = [],
      inspectDir = example_inspectDir,
      contextForEnvironment = ContextForEnvironment,
      applier = (\<lambda>tr c. None)\<rparr>"


text \<open>The state after planning the environment \<open>dev\<close> of the small repository.\<close>

definition example_planned :: "bool \<Rightarrow> Context Galaxy" where
  "example_planned skip =
     snd (Plan example_externals
            (NewGalaxy (example_dotGalaxy [''app'', ''db'']) (example_config [''dev''] skip)))"

section \<open>Environment lookup\<close>

lemma GetEnvironment_loop_error:
  "(GetEnvironment_loop envs name = Inl e) =
     (name \<notin> Name ` set envs \<and> e = ConfigurationError (''Environment is not found: '' @ name))"
  by (induction envs) auto

lemma GetEnvironment_loop_found:
  "(GetEnvironment_loop envs name = Inr env) =
     (\<exists>i < length envs. envs ! i = env \<and> Name env = name \<and> (\<forall>j < i. Name (envs ! j) \<noteq> name))"
proof (induction envs)
  case Nil
  then show ?case by simp
next
  case (Cons a envs)
  show ?case
  proof (cases "name = Name a")
    case True
    have "(a = env) = (\<exists>i < length (a # envs). (a # envs) ! i = env \<and> Name env = name
            \<and> (\<forall>j < i. Name ((a # envs) ! j) \<noteq> name))" (is "?l = ?r")
    proof
      assume ?l
      with True have "(a # envs) ! 0 = env \<and> Name env = name
          \<and> (\<forall>j < 0. Name ((a # envs) ! j) \<noteq> name)" by simp
      then show ?r by blast
    next
      assume ?r
      then obtain i where i: "i < length (a # envs)" "(a # envs) ! i = env"
        "\<forall>j < i. Name ((a # envs) ! j) \<noteq> name" by blast
      have "i = 0"
      proof (rule ccontr)
        assume "i \<noteq> 0"
        then have "0 < i" by simp
        with i(3) have "Name ((a # envs) ! 0) \<noteq> name" by blast
        with True show False by simp
      qed
      with i(2) show ?l by simp
    qed
    with True show ?thesis by simp
  next
    case False
    have "(\<exists>i < length envs. envs ! i = env \<and> Name env = name \<and> (\<forall>j < i. Name (envs ! j) \<noteq> name))
        = (\<exists>i < length (a # envs). (a # envs) ! i = env \<and> Name env = name
            \<and> (\<forall>j < i. Name ((a # envs) ! j) \<noteq> name))" (is "?l = ?r")
    proof
      assume ?l
      then obtain i where i: "i < length envs" "envs ! i = env" "Name env = name"
        "\<forall>j < i. Name (envs ! j) \<noteq> name" by blast
      have "\<forall>j < Suc i. Name ((a # envs) ! j) \<noteq> name"
      proof (intro allI impI)
        fix j assume "j < Suc i"
        with i(4) False show "Name ((a # envs) ! j) \<noteq> name" by (cases j) auto
      qed
      with i have "Suc i < length (a # envs) \<and> (a # envs) ! Suc i = env \<and> Name env = name
          \<and> (\<forall>j < Suc i. Name ((a # envs) ! j) \<noteq> name)" by simp
      then show ?r by blast
    next
      assume ?r
      then obtain i where i: "i < length (a # envs)" "(a # envs) ! i = env" "Name env = name"
        "\<forall>j < i. Name ((a # envs) ! j) \<noteq> name" by blast
      from i(2,3) False obtain k where k: "i = Suc k" by (cases i) auto
      have "\<forall>j < k. Name (envs ! j) \<noteq> name"
      proof (intro allI impI)
        fix j assume "j < k"
        with k have "Suc j < i" by simp
        with i(4) have "Name ((a # envs) ! Suc j) \<noteq> name" by blast
        then show "Name (envs ! j) \<noteq> name" by simp
      qed
      with i k have "k < length envs \<and> envs ! k = env \<and> Name env = name
          \<and> (\<forall>j < k. Name (envs ! j) \<noteq> name)" by simp
      then show ?l by blast
    qed
    with False Cons.IH show ?thesis by simp
  qed
qed

text \<open>
  C9. For every specification and every name, \<open>GetEnvironment\<close> returns the first
  environment of the sequence whose name is the requested one (the environment at the least
  index with that name), and it returns an error exactly when no environment of the
  sequence has the name. With two environments of the same name the earlier one is
  returned.
\<close>

theorem GetEnvironment_first_match:
  "((GetEnvironment d name = Inr env) =
      (\<exists>i < length (Environments (Spec d)).
         Environments (Spec d) ! i = env \<and> Name env = name
         \<and> (\<forall>j < i. Name (Environments (Spec d) ! j) \<noteq> name)))
   \<and> ((\<exists>e. GetEnvironment d name = Inl e) = (name \<notin> Name ` set (Environments (Spec d))))
   \<and> (Environments (Spec d) = pre @ e1 # post \<and> Name e1 = name \<and> name \<notin> Name ` set pre
        \<longrightarrow> GetEnvironment d name = Inr e1)"
proof (intro conjI impI)
  show "(GetEnvironment d name = Inr env) =
      (\<exists>i < length (Environments (Spec d)).
         Environments (Spec d) ! i = env \<and> Name env = name
         \<and> (\<forall>j < i. Name (Environments (Spec d) ! j) \<noteq> name))"
    unfolding GetEnvironment_def by (rule GetEnvironment_loop_found)
  show "(\<exists>e. GetEnvironment d name = Inl e) = (name \<notin> Name ` set (Environments (Spec d)))"
    unfolding GetEnvironment_def by (simp add: GetEnvironment_loop_error)
  assume a: "Environments (Spec d) = pre @ e1 # post \<and> Name e1 = name \<and> name \<notin> Name ` set pre"
  have "name \<notin> Name ` set ys \<Longrightarrow> GetEnvironment_loop (ys @ e1 # post) (Name e1) = Inr e1
          \<or> name \<noteq> Name e1" for ys
    by (induction ys) auto
  with a show "GetEnvironment d name = Inr e1"
    unfolding GetEnvironment_def by auto
qed

text \<open>
  Two environments named \<open>dev\<close> that differ in their namespace suffix: the lookup
  returns the one listed first.
\<close>

theorem GetEnvironment_first_match_witness:
  "GetEnvironment
     \<lparr>Spec = \<lparr>Environments =
         [\<lparr>Name = ''dev'', SkipOnNamespaces = [], FileSuffixes = [],
            Transform = \<lparr>NamespaceSuffix = ''-a'', ReleasePrefix = ''''\<rparr>\<rparr>,
          \<lparr>Name = ''dev'', SkipOnNamespaces = [], FileSuffixes = [],
            Transform = \<lparr>NamespaceSuffix = ''-b'', ReleasePrefix = ''''\<rparr>\<rparr>],
        Namespaces = \<lparr>BaseDir = ''ns'', Extensions = [], Names = []\<rparr>\<rparr>\<rparr> ''dev''
   = Inr \<lparr>Name = ''dev'', SkipOnNamespaces = [], FileSuffixes = [],
            Transform = \<lparr>NamespaceSuffix = ''-a'', ReleasePrefix = ''''\<rparr>\<rparr>"
  using GetEnvironment_first_match [of
     "\<lparr>Spec = \<lparr>Environments =
         [\<lparr>Name = ''dev'', SkipOnNamespaces = [], FileSuffixes = [],
            Transform = \<lparr>NamespaceSuffix = ''-a'', ReleasePrefix = ''''\<rparr>\<rparr>,
          \<lparr>Name = ''dev'', SkipOnNamespaces = [], FileSuffixes = [],
            Transform = \<lparr>NamespaceSuffix = ''-b'', ReleasePrefix = ''''\<rparr>\<rparr>],
        Namespaces = \<lparr>BaseDir = ''ns'', Extensions = [], Names = []\<rparr>\<rparr>\<rparr>"
     "''dev''" _ "[]"
     "\<lparr>Name = ''dev'', SkipOnNamespaces = [], FileSuffixes = [],
            Transform = \<lparr>NamespaceSuffix = ''-a'', ReleasePrefix = ''''\<rparr>\<rparr>"
     "[\<lparr>Name = ''dev'', SkipOnNamespaces = [], FileSuffixes = [],
            Transform = \<lparr>NamespaceSuffix = ''-b'', ReleasePrefix = ''''\<rparr>\<rparr>]"]
  by simp

section \<open>The small repository, evaluated\<close>

lemmas example_defs =
  example_environment_def example_dotGalaxy_def example_config_def example_inspectDir_def
  example_externals_def

lemmas Loop_defs =
  Loop_def ListEnvironments_def ListNamespaces_def GetNamespaceDir_def GetEnvironment_def

lemmas planner_defs =
  ContextForEnvironment_def inScope_def eligibleFile_def transformFile_def

lemma example_Plan:
  "Plan example_externals
     (NewGalaxy (example_dotGalaxy [''app'', ''db'']) (example_config [''dev''] skip))
   = (Return None,
      \<lparr>dotGalaxy = example_dotGalaxy [''app'', ''db''], cfg = example_config [''dev''] skip,
       original = Map.empty,
       Modified = [''dev'' \<mapsto>
         [[(''app-dev'', [\<lparr>namespace = ''app-dev'', path = ''ns/app/web.yaml'',
                            fileName = ''web'', release = ''dev-web''\<rparr>]),
           (''db-dev'', [\<lparr>namespace = ''db-dev'', path = ''ns/db/web.yaml'',
                            fileName = ''web'', release = ''dev-web''\<rparr>])]]],
       envOriginalNs = [''dev'' \<mapsto> [(''app-dev'', ''app''), (''db-dev'', ''db'')]]\<rparr>)"
  by (simp add: Plan_def Plan_fn_def NewGalaxy_def slice_at_def Loop_defs example_defs planner_defs Let_def)

lemma example_planned_eq:
  "example_planned skip =
     \<lparr>dotGalaxy = example_dotGalaxy [''app'', ''db''], cfg = example_config [''dev''] skip,
      original = Map.empty,
      Modified = [''dev'' \<mapsto>
         [[(''app-dev'', [\<lparr>namespace = ''app-dev'', path = ''ns/app/web.yaml'',
                            fileName = ''web'', release = ''dev-web''\<rparr>]),
           (''db-dev'', [\<lparr>namespace = ''db-dev'', path = ''ns/db/web.yaml'',
                            fileName = ''web'', release = ''dev-web''\<rparr>])]]],
      envOriginalNs = [''dev'' \<mapsto> [(''app-dev'', ''app''), (''db-dev'', ''db'')]]\<rparr>"
  by (simp add: example_planned_def example_Plan)

lemma example_probe: "probeSingleEnv (example_planned skip) = Inr ''dev''"
  by (simp add: example_planned_eq probeSingleEnv_def example_config_def)

lemma example_Apply:
  "Apply example_externals (example_planned False) =
     (Return None,
      [Call VaultHandler BootstrapMethod [StringArg ''app-dev'', BoolArg False],
       Call VaultHandler ApplyMethod [],
       Call Landscaper BootstrapMethod [StringArg ''app-dev'', StringArg ''app'', BoolArg False],
       Call Landscaper ApplyMethod [],
       Call VaultHandler BootstrapMethod [StringArg ''db-dev'', BoolArg False],
       Call VaultHandler ApplyMethod [],
       Call Landscaper BootstrapMethod [StringArg ''db-dev'', StringArg ''db'', BoolArg False],
       Call Landscaper ApplyMethod []])"
  by (simp add: Apply_def example_probe)
     (simp add: example_planned_eq GetEnvironment_def example_dotGalaxy_def
        example_environment_def example_config_def example_externals_def slice_at_def
        Apply_namespace_def invoke_def)

lemma example_Apply_skip:
  "Apply example_externals (example_planned True) =
     (Return None,
      [Call Landscaper BootstrapMethod [StringArg ''app-dev'', StringArg ''app'', BoolArg False],
       Call Landscaper ApplyMethod [],
       Call Landscaper BootstrapMethod [StringArg ''db-dev'', StringArg ''db'', BoolArg False],
       Call Landscaper ApplyMethod []])"
  by (simp add: Apply_def example_probe)
     (simp add: example_planned_eq GetEnvironment_def example_dotGalaxy_def
        example_environment_def example_config_def example_externals_def slice_at_def
        Apply_namespace_def invoke_def)


section \<open>The single-environment probe\<close>

text \<open>
  C1. \<open>Apply\<close> first runs \<open>probeSingleEnv\<close>. The probe fails with a
  \<open>ConfigurationError\<close> when the number of requested environments is not exactly 1, and
  with a \<open>NotPlannedError\<close> when the single requested environment has no entry in
  \<open>Modified\<close> or none in \<open>envOriginalNs\<close>; in each case \<open>Apply\<close> returns that error
  and calls no applier. Only when the three checks pass does \<open>Apply\<close> call an applier.
\<close>

theorem Apply_probe:
  "(length (GetEnvironments (cfg g)) \<noteq> 1 \<longrightarrow>
      probeSingleEnv g = Inl (ConfigurationError ''a single environment must be informed'')
      \<and> Apply x g = (Return (Some (ConfigurationError ''a single environment must be informed'')), []))
   \<and> (GetEnvironments (cfg g) = [envName]
        \<and> (Modified g envName = None \<or> envOriginalNs g envName = None) \<longrightarrow>
        (\<exists>msg. probeSingleEnv g = Inl (NotPlannedError msg)
           \<and> Apply x g = (Return (Some (NotPlannedError msg)), [])))
   \<and> (GetEnvironments (cfg g) = [envName]
        \<and> Modified g envName \<noteq> None \<and> envOriginalNs g envName \<noteq> None \<longrightarrow>
        probeSingleEnv g = Inr envName)
   \<and> (snd (Apply x g) \<noteq> [] \<longrightarrow>
        (\<exists>n. GetEnvironments (cfg g) = [n] \<and> Modified g n \<noteq> None \<and> envOriginalNs g n \<noteq> None
           \<and> probeSingleEnv g = Inr n))"
proof (intro conjI impI)
  assume "length (GetEnvironments (cfg g)) \<noteq> 1"
  then show "probeSingleEnv g = Inl (ConfigurationError ''a single environment must be informed'')"
    by (simp add: probeSingleEnv_def)
  then show "Apply x g = (Return (Some (ConfigurationError ''a single environment must be informed'')), [])"
    by (simp add: Apply_def)
next
  assume "GetEnvironments (cfg g) = [envName]
        \<and> (Modified g envName = None \<or> envOriginalNs g envName = None)"
  then have "\<exists>msg. probeSingleEnv g = Inl (NotPlannedError msg)"
    by (auto simp: probeSingleEnv_def Let_def)
  then show "\<exists>msg. probeSingleEnv g = Inl (NotPlannedError msg)
           \<and> Apply x g = (Return (Some (NotPlannedError msg)), [])"
    by (auto simp: Apply_def)
next
  assume "GetEnvironments (cfg g) = [envName]
        \<and> Modified g envName \<noteq> None \<and> envOriginalNs g envName \<noteq> None"
  then show "probeSingleEnv g = Inr envName"
    by (auto simp: probeSingleEnv_def Let_def)
next
  assume a: "snd (Apply x g) \<noteq> []"
  then obtain n where n: "probeSingleEnv g = Inr n"
    by (cases "probeSingleEnv g") (auto simp: Apply_def)
  then have "length (GetEnvironments (cfg g)) = 1"
    by (auto simp: probeSingleEnv_def split: if_splits)
  then obtain m where m: "GetEnvironments (cfg g) = [m]"
    by (cases "GetEnvironments (cfg g)") auto
  with n have "m = n \<and> Modified g n \<noteq> None \<and> envOriginalNs g n \<noteq> None"
    by (auto simp: probeSingleEnv_def Let_def split: if_splits)
  with m n show "\<exists>n. GetEnvironments (cfg g) = [n] \<and> Modified g n \<noteq> None \<and> envOriginalNs g n \<noteq> None
           \<and> probeSingleEnv g = Inr n" by blast
qed


text \<open>
  The probe on the small repository: no environment requested, an environment requested
  that was never planned, one with planned data but no original-namespace entry, and the
  planned environment \<open>dev\<close>, for which the appliers are called.
\<close>

theorem Apply_probe_witness:
  "Apply example_externals
      (NewGalaxy (example_dotGalaxy [''app'', ''db'']) (example_config [] False))
     = (Return (Some (ConfigurationError ''a single environment must be informed'')), [])
   \<and> (\<exists>msg. Apply example_externals
        (NewGalaxy (example_dotGalaxy [''app'', ''db'']) (example_config [''dev''] False))
          = (Return (Some (NotPlannedError msg)), []))
   \<and> (\<exists>msg. Apply example_externals
        ((NewGalaxy (example_dotGalaxy [''app'', ''db'']) (example_config [''dev''] False))
           \<lparr>Modified := [''dev'' \<mapsto> []]\<rparr>)
          = (Return (Some (NotPlannedError msg)), []))
   \<and> probeSingleEnv (example_planned False) = Inr ''dev''
   \<and> snd (Apply example_externals (example_planned False)) \<noteq> []"
proof -
  let ?g0 = "NewGalaxy (example_dotGalaxy [''app'', ''db'']) (example_config [] False)
               :: Context Galaxy"
  let ?g1 = "NewGalaxy (example_dotGalaxy [''app'', ''db'']) (example_config [''dev''] False)
               :: Context Galaxy"
  let ?g2 = "?g1\<lparr>Modified := [''dev'' \<mapsto> []]\<rparr>"
  have h0: "length (GetEnvironments (cfg ?g0)) \<noteq> 1"
    by (simp add: NewGalaxy_def example_config_def)
  have h1: "GetEnvironments (cfg ?g1) = [''dev'']
      \<and> (Modified ?g1 ''dev'' = None \<or> envOriginalNs ?g1 ''dev'' = None)"
    by (simp add: NewGalaxy_def example_config_def)
  have h2: "GetEnvironments (cfg ?g2) = [''dev'']
      \<and> (Modified ?g2 ''dev'' = None \<or> envOriginalNs ?g2 ''dev'' = None)"
    by (simp add: NewGalaxy_def example_config_def)
  have h3: "GetEnvironments (cfg (example_planned False)) = [''dev'']
      \<and> Modified (example_planned False) ''dev'' \<noteq> None
      \<and> envOriginalNs (example_planned False) ''dev'' \<noteq> None"
    by (simp add: example_planned_eq example_config_def)
  have c0: "Apply example_externals ?g0
      = (Return (Some (ConfigurationError ''a single environment must be informed'')), [])"
    using Apply_probe [where g = ?g0 and x = example_externals] h0 by blast
  have c1: "\<exists>msg. Apply example_externals ?g1 = (Return (Some (NotPlannedError msg)), [])"
    using Apply_probe [where g = ?g1 and x = example_externals and envName = "''dev''"] h1
    by blast
  have c2: "\<exists>msg. Apply example_externals ?g2 = (Return (Some (NotPlannedError msg)), [])"
    using Apply_probe [where g = ?g2 and x = example_externals and envName = "''dev''"] h2
    by blast
  have c3: "probeSingleEnv (example_planned False) = Inr ''dev''"
    using Apply_probe [where g = "example_planned False" and x = example_externals
        and envName = "''dev''"] h3
    by blast
  have c4: "snd (Apply example_externals (example_planned False)) \<noteq> []"
    by (simp add: example_Apply)
  from c0 c1 c2 c3 c4 show ?thesis by blast
qed

section \<open>The calls on the appliers\<close>

lemma invoke_cases:
  "invoke x c tr = Inr tr' \<Longrightarrow> tr' = tr @ [c]"
  "invoke x c tr = Inl (e, tr') \<Longrightarrow> tr' = tr @ [c]"
  by (auto simp: invoke_def split: option.splits)

lemma Apply_namespace_Inr:
  "Apply_namespace x c entry tr = Inr tr' \<Longrightarrow> tr' = tr @ namespace_calls c entry"
  by (cases entry)
     (auto simp: Apply_namespace_def namespace_calls_def invoke_def
           split: if_splits sum.splits option.splits)

lemma Apply_namespace_Inl:
  "Apply_namespace x c entry tr = Inl (e, tr') \<Longrightarrow>
     \<exists>k. tr' = tr @ take k (namespace_calls c entry)"
proof -
  assume a: "Apply_namespace x c entry tr = Inl (e, tr')"
  obtain ns orig where en: "entry = (ns, orig)" by (cases entry)
  let ?cs = "namespace_calls c entry"
  from a en have "tr' = tr @ take 1 ?cs \<or> tr' = tr @ take 2 ?cs \<or> tr' = tr @ take 3 ?cs
      \<or> tr' = tr @ take 4 ?cs"
    by (auto simp: Apply_namespace_def namespace_calls_def invoke_def
           split: if_splits sum.splits option.splits)
  then show ?thesis by blast
qed

lemma Apply_loop_trace:
  "Apply_loop x c entries tr = (r, tr') \<Longrightarrow>
     (\<exists>k. tr' = tr @ take k (concat (map (namespace_calls c) entries)))
     \<and> (r = Return None \<longrightarrow> tr' = tr @ concat (map (namespace_calls c) entries))
     \<and> (\<forall>e. r \<noteq> Exit e)"
proof (induction entries arbitrary: tr)
  case Nil
  then show ?case by auto
next
  case (Cons entry entries)
  show ?case
  proof (cases "Apply_namespace x c entry tr")
    case (Inl f)
    obtain e t where f: "f = (e, t)" by (cases f)
    with Inl Cons.prems have r: "r = Return (Some e)" "tr' = t" by auto
    from Inl f obtain k where "t = tr @ take k (namespace_calls c entry)"
      using Apply_namespace_Inl by blast
    then have "t = tr @ take (min k (length (namespace_calls c entry)))
        (concat (map (namespace_calls c) (entry # entries)))"
      by (simp add: min_def)
    with r show ?thesis by blast
  next
    case (Inr t)
    with Cons.prems have l: "Apply_loop x c entries t = (r, tr')" by simp
    from Inr have t: "t = tr @ namespace_calls c entry" by (rule Apply_namespace_Inr)
    from Cons.IH [OF l] obtain k where
      k: "tr' = t @ take k (concat (map (namespace_calls c) entries))"
      and s: "r = Return None \<longrightarrow> tr' = t @ concat (map (namespace_calls c) entries)"
      and e: "\<forall>e. r \<noteq> Exit e" by blast
    from k t have "tr' = tr @ take (length (namespace_calls c entry) + k)
        (concat (map (namespace_calls c) (entry # entries)))" by simp
    then have 1: "\<exists>k. tr' = tr @ take k (concat (map (namespace_calls c) (entry # entries)))"
      by blast
    from s t have 2: "r = Return None \<longrightarrow>
        tr' = tr @ concat (map (namespace_calls c) (entry # entries))" by simp
    from 1 2 e show ?thesis by blast
  qed
qed

lemma namespace_calls_secrets:
  "\<not> SkipSecrets c \<Longrightarrow> namespace_calls c (ns, orig) =
     [Call VaultHandler BootstrapMethod [StringArg ns, BoolArg (DryRun c)],
      Call VaultHandler ApplyMethod [],
      Call Landscaper BootstrapMethod [StringArg ns, StringArg orig, BoolArg (DryRun c)],
      Call Landscaper ApplyMethod []]"
  by (simp add: namespace_calls_def)

lemma namespace_calls_skip:
  "SkipSecrets c \<Longrightarrow> namespace_calls c (ns, orig) =
     [Call Landscaper BootstrapMethod [StringArg ns, StringArg orig, BoolArg (DryRun c)],
      Call Landscaper ApplyMethod []]"
  by (simp add: namespace_calls_def)

lemma calls_before_Landscaper_Bootstrap:
  assumes s: "\<not> SkipSecrets c"
  shows "j < length (concat (map (namespace_calls c) es)) \<Longrightarrow>
     concat (map (namespace_calls c) es) ! j = Call Landscaper BootstrapMethod args \<Longrightarrow>
     2 \<le> j \<and> (\<exists>ns orig. (ns, orig) \<in> set es
        \<and> args = [StringArg ns, StringArg orig, BoolArg (DryRun c)]
        \<and> concat (map (namespace_calls c) es) ! (j - 2)
            = Call VaultHandler BootstrapMethod [StringArg ns, BoolArg (DryRun c)]
        \<and> concat (map (namespace_calls c) es) ! (j - 1) = Call VaultHandler ApplyMethod [])"
proof (induction es arbitrary: j)
  case Nil
  then show ?case by simp
next
  case (Cons e es)
  obtain ns orig where e: "e = (ns, orig)" by (cases e)
  let ?b = "namespace_calls c (ns, orig)"
  let ?r = "concat (map (namespace_calls c) es)"
  have b: "?b = [Call VaultHandler BootstrapMethod [StringArg ns, BoolArg (DryRun c)],
      Call VaultHandler ApplyMethod [],
      Call Landscaper BootstrapMethod [StringArg ns, StringArg orig, BoolArg (DryRun c)],
      Call Landscaper ApplyMethod []]"
    using s by (rule namespace_calls_secrets)
  have full: "concat (map (namespace_calls c) (e # es)) = ?b @ ?r" using e by simp
  show ?case
  proof (cases "j < 4")
    case True
    then have "j = 0 \<or> j = 1 \<or> j = 2 \<or> j = 3" by arith
    with Cons.prems(2) e show ?thesis
      unfolding full b by auto
  next
    case False
    then have j4: "4 \<le> j" by simp
    have len: "length ?b = 4" by (simp add: b)
    from Cons.prems(1) j4 have l: "j - 4 < length ?r" unfolding full len length_append by arith
    from Cons.prems(2) j4 have n: "?r ! (j - 4) = Call Landscaper BootstrapMethod args"
      unfolding full by (simp add: nth_append len)
    from Cons.IH [OF l n] obtain ns' orig' where
      i: "2 \<le> j - 4" "(ns', orig') \<in> set es"
         "args = [StringArg ns', StringArg orig', BoolArg (DryRun c)]"
         "?r ! (j - 4 - 2) = Call VaultHandler BootstrapMethod [StringArg ns', BoolArg (DryRun c)]"
         "?r ! (j - 4 - 1) = Call VaultHandler ApplyMethod []" by blast
    from i(1) have "\<not> j - 2 < length ?b" "j - 2 - length ?b = j - 4 - 2"
      unfolding len by arith+
    then have a2: "(?b @ ?r) ! (j - 2) = ?r ! (j - 4 - 2)"
      by (simp only: nth_append if_False)
    from i(1) have "\<not> j - 1 < length ?b" "j - 1 - length ?b = j - 4 - 1"
      unfolding len by arith+
    then have a1: "(?b @ ?r) ! (j - 1) = ?r ! (j - 4 - 1)"
      by (simp only: nth_append if_False)
    from i(1) have "2 \<le> j" by arith
    moreover from i(2) have "(ns', orig') \<in> set (e # es)" by simp
    ultimately show ?thesis unfolding full a1 a2 using i(3,4,5) by blast
  qed
qed

lemma calls_before_Landscaper_Apply:
  "j < length (concat (map (namespace_calls c) es)) \<Longrightarrow>
     concat (map (namespace_calls c) es) ! j = Call Landscaper ApplyMethod args \<Longrightarrow>
     1 \<le> j \<and> args = [] \<and> (\<exists>ns orig. (ns, orig) \<in> set es
        \<and> concat (map (namespace_calls c) es) ! (j - 1)
            = Call Landscaper BootstrapMethod [StringArg ns, StringArg orig, BoolArg (DryRun c)])"
proof (induction es arbitrary: j)
  case Nil
  then show ?case by simp
next
  case (Cons e es)
  obtain ns orig where e: "e = (ns, orig)" by (cases e)
  let ?b = "namespace_calls c (ns, orig)"
  let ?r = "concat (map (namespace_calls c) es)"
  have full: "concat (map (namespace_calls c) (e # es)) = ?b @ ?r" using e by simp
  show ?case
  proof (cases "j < length ?b")
    case True
    show ?thesis
    proof (cases "SkipSecrets c")
      case True
      with \<open>j < length ?b\<close> have "j = 0 \<or> j = 1" by (simp add: namespace_calls_skip) arith
      with Cons.prems(2) e True show ?thesis
        unfolding full by (auto simp: namespace_calls_skip)
    next
      case False
      with \<open>j < length ?b\<close> have "j = 0 \<or> j = 1 \<or> j = 2 \<or> j = 3"
        by (simp add: namespace_calls_secrets) arith
      with Cons.prems(2) e False show ?thesis
        unfolding full by (auto simp: namespace_calls_secrets)
    qed
  next
    case False
    then have jb: "length ?b \<le> j" by simp
    from Cons.prems(1) jb have l: "j - length ?b < length ?r" unfolding full length_append by arith
    from Cons.prems(2) jb have n: "?r ! (j - length ?b) = Call Landscaper ApplyMethod args"
      unfolding full by (simp add: nth_append)
    from Cons.IH [OF l n] obtain ns' orig' where
      i: "1 \<le> j - length ?b" "args = []" "(ns', orig') \<in> set es"
         "?r ! (j - length ?b - 1)
            = Call Landscaper BootstrapMethod [StringArg ns', StringArg orig', BoolArg (DryRun c)]"
      by blast
    from i(1) have "\<not> j - 1 < length ?b" "j - 1 - length ?b = j - length ?b - 1"
      by arith+
    then have a1: "(?b @ ?r) ! (j - 1) = ?r ! (j - length ?b - 1)"
      by (simp only: nth_append if_False)
    from i(1) have "1 \<le> j" by arith
    moreover from i(3) have "(ns', orig') \<in> set (e # es)" by simp
    ultimately show ?thesis unfolding full a1 using i(2,4) by blast
  qed
qed

lemma no_vault_calls_when_skipping:
  "SkipSecrets c \<Longrightarrow> Call VaultHandler m args \<notin> set (concat (map (namespace_calls c) es))"
  by (induction es) (auto simp: namespace_calls_def split: if_splits)

lemma count_list_distinct: "distinct xs \<Longrightarrow> x \<in> set xs \<Longrightarrow> count_list xs x = 1"
  by (induction xs) (auto simp: count_list_0_iff)

lemma count_Landscaper_Bootstrap:
  "count_list (concat (map (namespace_calls c) es))
     (Call Landscaper BootstrapMethod [StringArg ns, StringArg orig, BoolArg (DryRun c)])
   = count_list es (ns, orig)"
  by (induction es) (auto simp: namespace_calls_def split: if_splits)

lemma count_Landscaper_Apply:
  "count_list (concat (map (namespace_calls c) es)) (Call Landscaper ApplyMethod []) = length es"
  by (induction es) (auto simp: namespace_calls_def split: if_splits)

lemma count_Vault_Bootstrap:
  "\<not> SkipSecrets c \<Longrightarrow>
   count_list (concat (map (namespace_calls c) es))
     (Call VaultHandler BootstrapMethod [StringArg ns, BoolArg (DryRun c)])
   = count_list (map fst es) ns"
  by (induction es) (auto simp: namespace_calls_def split: if_splits)

lemma count_Vault_Apply:
  "\<not> SkipSecrets c \<Longrightarrow>
   count_list (concat (map (namespace_calls c) es)) (Call VaultHandler ApplyMethod []) = length es"
  by (induction es) (auto simp: namespace_calls_def split: if_splits)

lemma count_Vault_Bootstrap_original:
  "count_list (concat (map (namespace_calls c) es))
     (Call VaultHandler BootstrapMethod [StringArg ns, StringArg orig, BoolArg d]) = 0"
  by (induction es) (auto simp: namespace_calls_def split: if_splits)

lemma Apply_trace:
  "probeSingleEnv g = Inr envName \<Longrightarrow>
     (\<exists>k. snd (Apply x g)
        = take k (concat (map (namespace_calls (cfg g)) (slice_at (envOriginalNs g) envName))))
     \<and> (fst (Apply x g) = Return None \<longrightarrow> snd (Apply x g)
        = concat (map (namespace_calls (cfg g)) (slice_at (envOriginalNs g) envName)))"
proof -
  assume p: "probeSingleEnv g = Inr envName"
  let ?full = "concat (map (namespace_calls (cfg g)) (slice_at (envOriginalNs g) envName))"
  show ?thesis
  proof (cases "GetEnvironment (dotGalaxy g) envName")
    case (Inl err)
    with p have "Apply x g = (Return (Some err), [])" by (simp add: Apply_def)
    then have "snd (Apply x g) = take 0 ?full" "fst (Apply x g) \<noteq> Return None" by simp_all
    then show ?thesis by blast
  next
    case (Inr e)
    with p have a: "Apply x g = Apply_loop x (cfg g) (slice_at (envOriginalNs g) envName) []"
      by (simp add: Apply_def)
    obtain r tr where l: "Apply_loop x (cfg g) (slice_at (envOriginalNs g) envName) [] = (r, tr)"
      by (cases "Apply_loop x (cfg g) (slice_at (envOriginalNs g) envName) []")
    from Apply_loop_trace [OF l] a l show ?thesis by simp
  qed
qed

lemma Apply_trace_any:
  "\<exists>k es. snd (Apply x g) = take k (concat (map (namespace_calls (cfg g)) es))"
proof (cases "probeSingleEnv g")
  case (Inl err)
  then have "snd (Apply x g) = take 0 (concat (map (namespace_calls (cfg g)) []))"
    by (simp add: Apply_def)
  then show ?thesis by blast
next
  case (Inr n)
  from Apply_trace [OF Inr] show ?thesis by blast
qed

lemma Apply_never_exits: "fst (Apply x g) \<noteq> Exit e"
proof (cases "probeSingleEnv g")
  case (Inl err)
  then show ?thesis by (simp add: Apply_def)
next
  case (Inr n)
  show ?thesis
  proof (cases "GetEnvironment (dotGalaxy g) n")
    case (Inl err)
    with Inr show ?thesis by (simp add: Apply_def)
  next
    case r: (Inr env)
    obtain r' tr where l: "Apply_loop x (cfg g) (slice_at (envOriginalNs g) n) [] = (r', tr)"
      by (cases "Apply_loop x (cfg g) (slice_at (envOriginalNs g) n) []")
    from Apply_loop_trace [OF l] Inr r l show ?thesis by (simp add: Apply_def)
  qed
qed

text \<open>
  C2. In the trace of \<open>Apply\<close>, when secrets are not skipped, every \<^verbatim>\<open>Bootstrap\<close> of the
  release applier for a namespace comes directly after the \<^verbatim>\<open>Bootstrap\<close> and the
  \<^verbatim>\<open>Apply\<close> of the secret handler for that same namespace, and every \<^verbatim>\<open>Apply\<close> of the
  release applier directly after its \<^verbatim>\<open>Bootstrap\<close>; when \<open>Apply\<close> returns without error
  the trace is these calls for every entry of the environment's original-namespace map, in
  the order of the range. When secrets are skipped the secret handler is never called and
  only the release applier runs.
\<close>

theorem Apply_secrets_before_releases:
  "(probeSingleEnv g = Inr envName \<and> fst (Apply x g) = Return None \<longrightarrow>
      snd (Apply x g)
        = concat (map (namespace_calls (cfg g)) (slice_at (envOriginalNs g) envName)))
   \<and> (\<not> SkipSecrets (cfg g) \<and> j < length (snd (Apply x g))
        \<and> snd (Apply x g) ! j = Call Landscaper BootstrapMethod args \<longrightarrow>
        2 \<le> j \<and> (\<exists>ns orig.
          args = [StringArg ns, StringArg orig, BoolArg (DryRun (cfg g))]
          \<and> snd (Apply x g) ! (j - 2)
              = Call VaultHandler BootstrapMethod [StringArg ns, BoolArg (DryRun (cfg g))]
          \<and> snd (Apply x g) ! (j - 1) = Call VaultHandler ApplyMethod []))
   \<and> (j < length (snd (Apply x g)) \<and> snd (Apply x g) ! j = Call Landscaper ApplyMethod args \<longrightarrow>
        1 \<le> j \<and> (\<exists>ns orig. snd (Apply x g) ! (j - 1)
              = Call Landscaper BootstrapMethod
                  [StringArg ns, StringArg orig, BoolArg (DryRun (cfg g))]))
   \<and> (SkipSecrets (cfg g) \<longrightarrow> Call VaultHandler m args' \<notin> set (snd (Apply x g)))"
proof -
  obtain k es where tr: "snd (Apply x g) = take k (concat (map (namespace_calls (cfg g)) es))"
    using Apply_trace_any by blast
  let ?full = "concat (map (namespace_calls (cfg g)) es)"
  have nth: "i \<le> j \<Longrightarrow> j < length (snd (Apply x g)) \<Longrightarrow> snd (Apply x g) ! i = ?full ! i" for i j
    unfolding tr by simp
  have 1: "probeSingleEnv g = Inr envName \<and> fst (Apply x g) = Return None \<longrightarrow>
      snd (Apply x g)
        = concat (map (namespace_calls (cfg g)) (slice_at (envOriginalNs g) envName))"
    using Apply_trace by blast
  have 2: "\<not> SkipSecrets (cfg g) \<and> j < length (snd (Apply x g))
        \<and> snd (Apply x g) ! j = Call Landscaper BootstrapMethod args \<longrightarrow>
        2 \<le> j \<and> (\<exists>ns orig.
          args = [StringArg ns, StringArg orig, BoolArg (DryRun (cfg g))]
          \<and> snd (Apply x g) ! (j - 2)
              = Call VaultHandler BootstrapMethod [StringArg ns, BoolArg (DryRun (cfg g))]
          \<and> snd (Apply x g) ! (j - 1) = Call VaultHandler ApplyMethod [])"
  proof
    assume a: "\<not> SkipSecrets (cfg g) \<and> j < length (snd (Apply x g))
        \<and> snd (Apply x g) ! j = Call Landscaper BootstrapMethod args"
    then have jl: "j < length ?full" unfolding tr by simp
    from a have "?full ! j = Call Landscaper BootstrapMethod args"
      using nth [of j j] by simp
    from calls_before_Landscaper_Bootstrap [OF _ jl this] a obtain ns orig where
      "2 \<le> j" "args = [StringArg ns, StringArg orig, BoolArg (DryRun (cfg g))]"
      "?full ! (j - 2) = Call VaultHandler BootstrapMethod [StringArg ns, BoolArg (DryRun (cfg g))]"
      "?full ! (j - 1) = Call VaultHandler ApplyMethod []" by blast
    with a nth [of "j - 2" j] nth [of "j - 1" j]
    show "2 \<le> j \<and> (\<exists>ns orig.
          args = [StringArg ns, StringArg orig, BoolArg (DryRun (cfg g))]
          \<and> snd (Apply x g) ! (j - 2)
              = Call VaultHandler BootstrapMethod [StringArg ns, BoolArg (DryRun (cfg g))]
          \<and> snd (Apply x g) ! (j - 1) = Call VaultHandler ApplyMethod [])"
      by simp
  qed
  have 3: "j < length (snd (Apply x g)) \<and> snd (Apply x g) ! j = Call Landscaper ApplyMethod args \<longrightarrow>
        1 \<le> j \<and> (\<exists>ns orig. snd (Apply x g) ! (j - 1)
              = Call Landscaper BootstrapMethod
                  [StringArg ns, StringArg orig, BoolArg (DryRun (cfg g))])"
  proof
    assume a: "j < length (snd (Apply x g)) \<and> snd (Apply x g) ! j = Call Landscaper ApplyMethod args"
    then have jl: "j < length ?full" unfolding tr by simp
    from a have "?full ! j = Call Landscaper ApplyMethod args"
      using nth [of j j] by simp
    from calls_before_Landscaper_Apply [OF jl this] obtain ns orig where
      "1 \<le> j"
      "?full ! (j - 1) = Call Landscaper BootstrapMethod
          [StringArg ns, StringArg orig, BoolArg (DryRun (cfg g))]" by blast
    with a nth [of "j - 1" j]
    show "1 \<le> j \<and> (\<exists>ns orig. snd (Apply x g) ! (j - 1)
              = Call Landscaper BootstrapMethod
                  [StringArg ns, StringArg orig, BoolArg (DryRun (cfg g))])"
      by simp
  qed
  have 4: "SkipSecrets (cfg g) \<longrightarrow> Call VaultHandler m args' \<notin> set (snd (Apply x g))"
  proof
    assume "SkipSecrets (cfg g)"
    then have "Call VaultHandler m args' \<notin> set ?full" by (rule no_vault_calls_when_skipping)
    then show "Call VaultHandler m args' \<notin> set (snd (Apply x g))"
      unfolding tr using in_set_takeD by fastforce
  qed
  from 1 2 3 4 show ?thesis by blast
qed


text \<open>
  On the planned environment \<open>dev\<close> of the small repository the third call is the
  release applier's \<^verbatim>\<open>Bootstrap\<close> for \<open>app-dev\<close>, and the two calls before it are the
  secret handler's; with \<^verbatim>\<open>SkipSecrets\<close> the secret handler is not called.
\<close>

theorem Apply_secrets_before_releases_witness:
  "snd (Apply example_externals (example_planned False)) ! 2
      = Call Landscaper BootstrapMethod [StringArg ''app-dev'', StringArg ''app'', BoolArg False]
   \<and> snd (Apply example_externals (example_planned False)) ! 0
      = Call VaultHandler BootstrapMethod [StringArg ''app-dev'', BoolArg False]
   \<and> snd (Apply example_externals (example_planned False)) ! 1 = Call VaultHandler ApplyMethod []
   \<and> Call VaultHandler BootstrapMethod [StringArg ''app-dev'', BoolArg False]
        \<notin> set (snd (Apply example_externals (example_planned True)))
   \<and> snd (Apply example_externals (example_planned True))
        = concat (map (namespace_calls (example_config [''dev''] True))
            [(''app-dev'', ''app''), (''db-dev'', ''db'')])"
  using
    Apply_secrets_before_releases [where g = "example_planned False" and envName = "''dev''"
      and x = example_externals and j = 2
      and args = "[StringArg ''app-dev'', StringArg ''app'', BoolArg False]"]
    Apply_secrets_before_releases [where g = "example_planned True" and envName = "''dev''"
      and x = example_externals and j = 0 and args = "[]"
      and m = BootstrapMethod and args' = "[StringArg ''app-dev'', BoolArg False]"]
  by (simp add: example_Apply example_Apply_skip example_probe)
     (simp add: example_planned_eq example_config_def slice_at_def namespace_calls_def)

text \<open>
  C3, as stated, fails: for the entry \<open>(app-dev, app)\<close> of the planned environment
  \<open>dev\<close> the secret handler's \<^verbatim>\<open>Bootstrap\<close> is never called with the namespace, the
  original namespace and the dry-run flag; it is called once with the namespace and the
  flag only.
\<close>

theorem Apply_vault_bootstrap_counterexample:
  "count_list (snd (Apply example_externals (example_planned False)))
      (Call VaultHandler BootstrapMethod [StringArg ''app-dev'', StringArg ''app'', BoolArg False])
     \<noteq> 1
   \<and> count_list (snd (Apply example_externals (example_planned False)))
      (Call VaultHandler BootstrapMethod [StringArg ''app-dev'', BoolArg False]) = 1"
  by (simp add: example_Apply)

text \<open>
  C3, amended. When \<^verbatim>\<open>Apply\<close> returns without error, then for every entry (namespace,
  original namespace) of the original-namespace map of the requested environment the
  release applier's \<^verbatim>\<open>Bootstrap\<close> is called exactly once with the namespace, the original
  namespace and the dry-run flag, and its \<^verbatim>\<open>Apply\<close> once per entry. The secret handler's
  \<^verbatim>\<open>Bootstrap\<close> is called exactly once with the namespace and the dry-run flag, without
  the original namespace, and its \<^verbatim>\<open>Apply\<close> once per entry, unless secrets are skipped:
  then it is not called. The keys of the map are distinct, as the keys of a Go map are.
\<close>

theorem Apply_calls_once_per_namespace:
  "probeSingleEnv g = Inr envName \<and> fst (Apply x g) = Return None
     \<and> envOriginalNs g envName = Some entries \<and> distinct (map fst entries)
     \<and> (ns, orig) \<in> set entries \<longrightarrow>
   count_list (snd (Apply x g))
       (Call Landscaper BootstrapMethod [StringArg ns, StringArg orig, BoolArg (DryRun (cfg g))]) = 1
   \<and> count_list (snd (Apply x g)) (Call Landscaper ApplyMethod []) = length entries
   \<and> count_list (snd (Apply x g))
       (Call VaultHandler BootstrapMethod [StringArg ns, BoolArg (DryRun (cfg g))])
        = (if SkipSecrets (cfg g) then 0 else 1)
   \<and> count_list (snd (Apply x g)) (Call VaultHandler ApplyMethod [])
        = (if SkipSecrets (cfg g) then 0 else length entries)
   \<and> count_list (snd (Apply x g))
       (Call VaultHandler BootstrapMethod [StringArg ns, StringArg orig, BoolArg (DryRun (cfg g))]) = 0"
proof
  assume a: "probeSingleEnv g = Inr envName \<and> fst (Apply x g) = Return None
     \<and> envOriginalNs g envName = Some entries \<and> distinct (map fst entries)
     \<and> (ns, orig) \<in> set entries"
  then have tr: "snd (Apply x g) = concat (map (namespace_calls (cfg g)) entries)"
    using Apply_trace [of g envName x] by (simp add: slice_at_def)
  from a have d: "distinct entries" by (simp add: distinct_map)
  from a have k: "ns \<in> set (map fst entries)" by force
  have 1: "count_list entries (ns, orig) = 1" using d a by (simp add: count_list_distinct)
  have 2: "count_list (map fst entries) ns = 1" using a k by (simp add: count_list_distinct)
  have 3: "SkipSecrets (cfg g) \<Longrightarrow> count_list (concat (map (namespace_calls (cfg g)) entries))
      (Call VaultHandler m args) = 0" for m args
    using no_vault_calls_when_skipping [of "cfg g" m args entries] by simp
  show "count_list (snd (Apply x g))
       (Call Landscaper BootstrapMethod [StringArg ns, StringArg orig, BoolArg (DryRun (cfg g))]) = 1
   \<and> count_list (snd (Apply x g)) (Call Landscaper ApplyMethod []) = length entries
   \<and> count_list (snd (Apply x g))
       (Call VaultHandler BootstrapMethod [StringArg ns, BoolArg (DryRun (cfg g))])
        = (if SkipSecrets (cfg g) then 0 else 1)
   \<and> count_list (snd (Apply x g)) (Call VaultHandler ApplyMethod [])
        = (if SkipSecrets (cfg g) then 0 else length entries)
   \<and> count_list (snd (Apply x g))
       (Call VaultHandler BootstrapMethod [StringArg ns, StringArg orig, BoolArg (DryRun (cfg g))]) = 0"
    unfolding tr
    by (simp add: count_Landscaper_Bootstrap count_Landscaper_Apply count_Vault_Bootstrap
          count_Vault_Apply count_Vault_Bootstrap_original 1 2 3)
qed

text \<open>
  The entry \<open>(db-dev, db)\<close> of the planned environment \<open>dev\<close>: one \<^verbatim>\<open>Bootstrap\<close> of
  each applier, two \<^verbatim>\<open>Apply\<close> of each for the two entries.
\<close>

theorem Apply_calls_once_per_namespace_witness:
  "count_list (snd (Apply example_externals (example_planned False)))
       (Call Landscaper BootstrapMethod [StringArg ''db-dev'', StringArg ''db'', BoolArg False]) = 1
   \<and> count_list (snd (Apply example_externals (example_planned False)))
       (Call Landscaper ApplyMethod []) = 2
   \<and> count_list (snd (Apply example_externals (example_planned False)))
       (Call VaultHandler BootstrapMethod [StringArg ''db-dev'', BoolArg False]) = 1
   \<and> count_list (snd (Apply example_externals (example_planned False)))
       (Call VaultHandler ApplyMethod []) = 2
   \<and> probeSingleEnv (example_planned False) = Inr ''dev''
   \<and> fst (Apply example_externals (example_planned False)) = Return None
   \<and> envOriginalNs (example_planned False) ''dev'' = Some [(''app-dev'', ''app''), (''db-dev'', ''db'')]"
  using Apply_calls_once_per_namespace [where g = "example_planned False" and envName = "''dev''"
      and x = example_externals and entries = "[(''app-dev'', ''app''), (''db-dev'', ''db'')]"
      and ns = "''db-dev''" and orig = "''db''"]
  by (simp add: example_probe example_Apply)
     (simp add: example_planned_eq example_config_def)

section \<open>The loop of Plan\<close>

lemma Plan_write_fields [simp]:
  "cfg (Plan_write e m ons g) = cfg g"
  "dotGalaxy (Plan_write e m ons g) = dotGalaxy g"
  "original (Plan_write e m ons g) = original g"
  "envOriginalNs (Plan_write e m ons g) = (envOriginalNs g)(e \<mapsto> ons)"
  "Modified (Plan_write e m ons g) = (Modified g)(e \<mapsto> slice_at (Modified g) e @ [m])"
  by (simp_all add: Plan_write_def)

lemma Plan_writes_fields [simp]:
  "cfg (Plan_writes ws g) = cfg g"
  "dotGalaxy (Plan_writes ws g) = dotGalaxy g"
  "original (Plan_writes ws g) = original g"
  by (induction ws arbitrary: g; auto)+

lemma Plan_fn_log:
  "Plan_fn x envName ctx g =
     (if length (GetEnvironments (cfg g)) > 0
         \<and> \<not> stringSliceContains (GetEnvironments (cfg g)) envName
      then (None, g)
      else
        (case GetEnvironment (dotGalaxy g) envName of
           Inl err \<Rightarrow> (Some err, g)
         | Inr env \<Rightarrow>
             (case contextForEnvironment x env (GetNamespaces (cfg g)) ctx of
                Inl err \<Rightarrow> (Some err, g)
              | Inr (modified, originalNs) \<Rightarrow> (None, Plan_write envName modified originalNs g))))"
  by (simp add: Plan_fn_def Plan_write_def split: sum.splits prod.splits)

lemma Loop_environments_failed_inspection:
  "Loop_namespaces x d exts (ListNamespaces d) (newContext x) = Inl r \<Longrightarrow>
     Loop_environments x d exts fn envs g = (if envs = [] then (Return None, g) else (r, g))"
  by (cases envs) simp_all

lemma Loop_environments_Plan:
  assumes n: "Loop_namespaces x d exts (ListNamespaces d) (newContext x) = Inr ctx"
  shows "dotGalaxy g = d \<Longrightarrow>
     Loop_environments x d exts (Plan_fn x) envs g =
       (Return (fst (Plan_log x d (cfg g) ctx envs)),
        Plan_writes (snd (Plan_log x d (cfg g) ctx envs)) g)"
proof (induction envs arbitrary: g)
  case Nil
  then show ?case by simp
next
  case (Cons envName envs)
  show ?case
  proof (cases "length (GetEnvironments (cfg g)) > 0
         \<and> \<not> stringSliceContains (GetEnvironments (cfg g)) envName")
    case True
    then have "Plan_fn x envName ctx g = (None, g)" by (simp add: Plan_fn_log)
    with True n Cons.IH [OF Cons.prems] show ?thesis by simp
  next
    case False
    show ?thesis
    proof (cases "GetEnvironment d envName")
      case (Inl err)
      with False Cons.prems have "Plan_fn x envName ctx g = (Some err, g)"
        by (auto simp: Plan_fn_log)
      with False Inl n show ?thesis by auto
    next
      case (Inr env)
      show ?thesis
      proof (cases "contextForEnvironment x env (GetNamespaces (cfg g)) ctx")
        case (Inl err)
        with False Inr Cons.prems have "Plan_fn x envName ctx g = (Some err, g)"
          by (auto simp: Plan_fn_log)
        with False Inr Inl n show ?thesis by auto
      next
        case r: (Inr mo)
        obtain m ons where mo: "mo = (m, ons)" by (cases mo)
        let ?g = "Plan_write envName m ons g"
        from False Inr r mo Cons.prems have f: "Plan_fn x envName ctx g = (None, ?g)"
          by (auto simp: Plan_fn_log)
        have "dotGalaxy ?g = d" using Cons.prems by simp
        from Cons.IH [OF this] have
          "Loop_environments x d exts (Plan_fn x) envs ?g =
             (Return (fst (Plan_log x d (cfg g) ctx envs)),
              Plan_writes (snd (Plan_log x d (cfg g) ctx envs)) ?g)" by simp
        with False Inr r mo f n show ?thesis
          by (auto simp: split_beta)
      qed
    qed
  qed
qed

lemma stringSliceContains_set [simp]: "stringSliceContains xs s = (s \<in> set xs)"
  by (induction xs) auto

lemma ListEnvironments_loop_map: "ListEnvironments_loop envs acc = acc @ map Name envs"
  by (induction envs arbitrary: acc) auto

lemma ListEnvironments_map: "ListEnvironments d = map Name (Environments (Spec d))"
  by (simp add: ListEnvironments_def ListEnvironments_loop_map)

lemma Plan_log_keys:
  "e \<in> fst ` set (snd (Plan_log x d c ctx envs)) \<Longrightarrow>
     e \<in> set envs \<and> (GetEnvironments c = [] \<or> e \<in> set (GetEnvironments c))"
  by (induction envs) (auto split: sum.splits prod.splits if_splits)

lemma Plan_log_all:
  "fst (Plan_log x d c ctx envs) = None \<Longrightarrow> e \<in> set envs \<Longrightarrow>
     GetEnvironments c = [] \<or> e \<in> set (GetEnvironments c) \<Longrightarrow>
     e \<in> fst ` set (snd (Plan_log x d c ctx envs))"
  by (induction envs) (auto split: sum.splits prod.splits if_splits)

lemma Plan_writes_Modified:
  "Modified (Plan_writes ws g) e =
     (if e \<in> fst ` set ws
      then Some (slice_at (Modified g) e @ map (fst \<circ> snd) (filter (\<lambda>w. fst w = e) ws))
      else Modified g e)"
proof (induction ws arbitrary: g)
  case Nil
  then show ?case by simp
next
  case (Cons w ws)
  obtain e' m ons where w: "w = (e', m, ons)" by (cases w)
  show ?case
    unfolding w Plan_writes.simps Cons.IH
    by (auto simp: slice_at_def filter_empty_conv)
qed

lemma Plan_writes_envOriginalNs:
  "envOriginalNs (Plan_writes ws g) e =
     (case map_of (rev (map (\<lambda>w. (fst w, snd (snd w))) ws)) e of
        None \<Rightarrow> envOriginalNs g e
      | Some ons \<Rightarrow> Some ons)"
proof (induction ws arbitrary: g)
  case Nil
  then show ?case by simp
next
  case (Cons w ws)
  obtain e' m ons where w: "w = (e', m, ons)" by (cases w)
  show ?case
    unfolding w Plan_writes.simps Cons.IH
    by (auto simp: map_add_def split: option.splits)
qed

lemma Plan_writes_unwritten:
  "e \<notin> fst ` set ws \<Longrightarrow>
     Modified (Plan_writes ws g) e = Modified g e
     \<and> envOriginalNs (Plan_writes ws g) e = envOriginalNs g e"
proof (induction ws arbitrary: g)
  case Nil
  then show ?case by simp
next
  case (Cons w ws)
  obtain e' m ons where w: "w = (e', m, ons)" by (cases w)
  from Cons.prems w have "e \<noteq> e'" "e \<notin> fst ` set ws" by auto
  with Cons.IH [of "Plan_write e' m ons g"] show ?case unfolding w by simp
qed

lemma Plan_writes_written:
  "e \<in> fst ` set ws \<Longrightarrow>
     Modified (Plan_writes ws g) e \<noteq> None \<and> envOriginalNs (Plan_writes ws g) e \<noteq> None"
proof (induction ws arbitrary: g)
  case Nil
  then show ?case by simp
next
  case (Cons w ws)
  obtain e' m ons where w: "w = (e', m, ons)" by (cases w)
  show ?case
  proof (cases "e \<in> fst ` set ws")
    case True
    with Cons.IH [of "Plan_write e' m ons g"] show ?thesis unfolding w by simp
  next
    case False
    with Cons.prems w have "e = e'" by auto
    with False Plan_writes_unwritten [of e ws "Plan_write e' m ons g"] show ?thesis
      unfolding w by simp
  qed
qed

lemma Plan_writes_invariant:
  "(Modified g e = None) = (envOriginalNs g e = None) \<Longrightarrow>
     (Modified (Plan_writes ws g) e = None) = (envOriginalNs (Plan_writes ws g) e = None)"
proof (cases "e \<in> fst ` set ws")
  case True
  with Plan_writes_written [of e ws g] show ?thesis by auto
next
  case False
  assume "(Modified g e = None) = (envOriginalNs g e = None)"
  with False Plan_writes_unwritten [of e ws g] show ?thesis by simp
qed

text \<open>What a call of \<open>Plan\<close> does to the state, as a list of writes.\<close>

lemma Plan_as_writes:
  "\<exists>ws. snd (Plan x g) = Plan_writes ws g
     \<and> (\<forall>e. e \<in> fst ` set ws \<longrightarrow>
          e \<in> set (ListEnvironments (dotGalaxy g))
          \<and> (GetEnvironments (cfg g) = [] \<or> e \<in> set (GetEnvironments (cfg g))))
     \<and> (fst (Plan x g) = Return None \<longrightarrow>
          (\<forall>e. e \<in> set (ListEnvironments (dotGalaxy g))
             \<and> (GetEnvironments (cfg g) = [] \<or> e \<in> set (GetEnvironments (cfg g)))
             \<longrightarrow> e \<in> fst ` set ws))
     \<and> (\<forall>h. dotGalaxy h = dotGalaxy g \<and> cfg h = cfg g \<longrightarrow>
          Plan x h = (fst (Plan x g), Plan_writes ws h))"
proof -
  let ?d = "dotGalaxy g"
  let ?exts = "Extensions (Namespaces (Spec ?d))"
  let ?envs = "ListEnvironments ?d"
  show ?thesis
  proof (cases "Loop_namespaces x ?d ?exts (ListNamespaces ?d) (newContext x)")
    case (Inl r)
    have p: "dotGalaxy h = ?d \<Longrightarrow>
        Plan x h = (if ?envs = [] then (Return None, h) else (r, h))" for h
      using Loop_environments_failed_inspection [OF Inl] by (simp add: Plan_def Loop_def)
    have r: "r \<noteq> Return None"
    proof
      assume rn: "r = Return None"
      have "Loop_namespaces x ?d ?exts nss c \<noteq> Inl (Return None)" for nss c
        by (induction nss arbitrary: c) (auto split: sum.splits)
      with Inl rn show False by simp
    qed
    have 1: "snd (Plan x g) = Plan_writes [] g" using p [of g] by simp
    have 2: "\<forall>e. e \<in> fst ` set [] \<longrightarrow>
          e \<in> set ?envs \<and> (GetEnvironments (cfg g) = [] \<or> e \<in> set (GetEnvironments (cfg g)))"
      by simp
    have "fst (Plan x g) = Return None \<longrightarrow> ?envs = []" using p [of g] r by simp
    then have 3: "fst (Plan x g) = Return None \<longrightarrow>
          (\<forall>e. e \<in> set ?envs
             \<and> (GetEnvironments (cfg g) = [] \<or> e \<in> set (GetEnvironments (cfg g)))
             \<longrightarrow> e \<in> fst ` set [])"
      by simp
    have 4: "\<forall>h. dotGalaxy h = ?d \<and> cfg h = cfg g \<longrightarrow>
        Plan x h = (fst (Plan x g), Plan_writes [] h)"
      using p p [of g] by simp
    from 1 2 3 4 show ?thesis by blast
  next
    case (Inr ctx)
    let ?ws = "snd (Plan_log x ?d (cfg g) ctx ?envs)"
    have p: "dotGalaxy h = ?d \<Longrightarrow> cfg h = cfg g \<Longrightarrow>
        Plan x h = (Return (fst (Plan_log x ?d (cfg g) ctx ?envs)), Plan_writes ?ws h)" for h
      using Loop_environments_Plan [OF Inr, of h] by (simp add: Plan_def Loop_def)
    have pg: "Plan x g = (Return (fst (Plan_log x ?d (cfg g) ctx ?envs)), Plan_writes ?ws g)"
      by (rule p) simp_all
    have 1: "snd (Plan x g) = Plan_writes ?ws g" by (simp add: pg)
    have 2: "\<forall>e. e \<in> fst ` set ?ws \<longrightarrow>
          e \<in> set ?envs \<and> (GetEnvironments (cfg g) = [] \<or> e \<in> set (GetEnvironments (cfg g)))"
    proof (intro allI impI)
      fix e assume "e \<in> fst ` set ?ws"
      then show "e \<in> set ?envs
          \<and> (GetEnvironments (cfg g) = [] \<or> e \<in> set (GetEnvironments (cfg g)))"
        by (rule Plan_log_keys)
    qed
    have 3: "fst (Plan x g) = Return None \<longrightarrow>
          (\<forall>e. e \<in> set ?envs
             \<and> (GetEnvironments (cfg g) = [] \<or> e \<in> set (GetEnvironments (cfg g)))
             \<longrightarrow> e \<in> fst ` set ?ws)"
    proof (intro allI impI)
      fix e
      assume a: "fst (Plan x g) = Return None"
        and b: "e \<in> set ?envs
             \<and> (GetEnvironments (cfg g) = [] \<or> e \<in> set (GetEnvironments (cfg g)))"
      from a have n: "fst (Plan_log x ?d (cfg g) ctx ?envs) = None" by (simp add: pg)
      from b have b1: "e \<in> set ?envs"
        and b2: "GetEnvironments (cfg g) = [] \<or> e \<in> set (GetEnvironments (cfg g))" by simp_all
      from n b1 b2 show "e \<in> fst ` set ?ws" by (rule Plan_log_all)
    qed
    have 4: "\<forall>h. dotGalaxy h = ?d \<and> cfg h = cfg g \<longrightarrow>
          Plan x h = (fst (Plan x g), Plan_writes ?ws h)"
    proof (intro allI impI)
      fix h :: "'a Galaxy"
      assume "dotGalaxy h = ?d \<and> cfg h = cfg g"
      then have "Plan x h
          = (Return (fst (Plan_log x ?d (cfg g) ctx ?envs)), Plan_writes ?ws h)"
        using p [of h] by simp
      then show "Plan x h = (fst (Plan x g), Plan_writes ?ws h)" by (simp add: pg)
    qed
    from 1 2 3 4 show ?thesis by blast
  qed
qed

section \<open>The environment filter of Plan\<close>










section \<open>Planning twice\<close>

lemma Plan_log_count:
  "length (filter (\<lambda>w. fst w = e) (snd (Plan_log x d c ctx envs))) \<le> count_list envs e"
  by (induction envs) (auto split: sum.splits prod.splits if_splits)

lemma Plan_once_per_listing:
  "Modified (snd (Plan x g)) e = Modified g e
   \<or> (\<exists>cs. Modified (snd (Plan x g)) e = Some (slice_at (Modified g) e @ cs)
         \<and> 1 \<le> length cs \<and> length cs \<le> count_list (ListEnvironments (dotGalaxy g)) e)"
proof -
  let ?d = "dotGalaxy g"
  let ?exts = "Extensions (Namespaces (Spec ?d))"
  let ?envs = "ListEnvironments ?d"
  show ?thesis
  proof (cases "Loop_namespaces x ?d ?exts (ListNamespaces ?d) (newContext x)")
    case (Inl r)
    have "snd (Plan x g) = g"
      using Loop_environments_failed_inspection [OF Inl, of "Plan_fn x" ?envs g]
      by (simp add: Plan_def Loop_def)
    then show ?thesis by simp
  next
    case (Inr ctx)
    let ?ws = "snd (Plan_log x ?d (cfg g) ctx ?envs)"
    let ?cs = "map (fst \<circ> snd) (filter (\<lambda>w. fst w = e) ?ws)"
    have p: "snd (Plan x g) = Plan_writes ?ws g"
      using Loop_environments_Plan [OF Inr, of g] by (simp add: Plan_def Loop_def)
    show ?thesis
    proof (cases "e \<in> fst ` set ?ws")
      case False
      then show ?thesis unfolding p by (simp add: Plan_writes_Modified)
    next
      case True
      then have m: "Modified (snd (Plan x g)) e = Some (slice_at (Modified g) e @ ?cs)"
        unfolding p by (simp add: Plan_writes_Modified)
      from True have "filter (\<lambda>w. fst w = e) ?ws \<noteq> []"
        by (auto simp: filter_empty_conv)
      then have 1: "1 \<le> length ?cs" by (cases "filter (\<lambda>w. fst w = e) ?ws") simp_all
      have 2: "length ?cs \<le> count_list ?envs e" using Plan_log_count [of e x ?d "cfg g" ctx ?envs]
        by simp
      from m 1 2 show ?thesis by blast
    qed
  qed
qed

lemma example_Plan_again:
  "Modified (snd (Plan example_externals (example_planned False))) ''dev'' =
     Some [[(''app-dev'', [\<lparr>namespace = ''app-dev'', path = ''ns/app/web.yaml'',
                            fileName = ''web'', release = ''dev-web''\<rparr>]),
            (''db-dev'', [\<lparr>namespace = ''db-dev'', path = ''ns/db/web.yaml'',
                            fileName = ''web'', release = ''dev-web''\<rparr>])],
           [(''app-dev'', [\<lparr>namespace = ''app-dev'', path = ''ns/app/web.yaml'',
                            fileName = ''web'', release = ''dev-web''\<rparr>]),
            (''db-dev'', [\<lparr>namespace = ''db-dev'', path = ''ns/db/web.yaml'',
                            fileName = ''web'', release = ''dev-web''\<rparr>])]]"
  by (simp add: example_planned_eq)
     (simp add: Plan_def Plan_fn_def slice_at_def Loop_defs example_defs planner_defs Let_def)

text \<open>
  C6, as stated, fails: after a second call of \<open>Plan\<close> on the small repository the
  planned data of \<open>dev\<close> is not what it was after the first call; it holds the context
  twice.
\<close>

theorem Plan_twice_counterexample:
  "Modified (snd (Plan example_externals (example_planned False))) ''dev''
     \<noteq> Modified (example_planned False) ''dev''"
  by (simp add: example_Plan_again) (simp add: example_planned_eq)

text \<open>
  C6, amended. Each call of \<open>Plan\<close> builds a new base context for each environment,
  and, the environment names of the specification being distinct, writes the entry of an
  environment once: after one call on a new orchestrator an entry of \<open>Modified\<close> holds
  one context. When that call returns without error, a second call on the same
  specification and directory tree returns without error too and leaves the
  original-namespace map as the first call left it, and the entry of each environment in
  \<open>Modified\<close> holds the contexts of the first call twice: a call appends to the entry.
\<close>

theorem Plan_twice:
  "(fst (Plan x (NewGalaxy d c)) = Return None \<longrightarrow>
     fst (Plan x (snd (Plan x (NewGalaxy d c)))) = Return None
     \<and> envOriginalNs (snd (Plan x (snd (Plan x (NewGalaxy d c))))) envName
         = envOriginalNs (snd (Plan x (NewGalaxy d c))) envName
     \<and> Modified (snd (Plan x (snd (Plan x (NewGalaxy d c))))) envName
         = map_option (\<lambda>cs. cs @ cs) (Modified (snd (Plan x (NewGalaxy d c))) envName))
   \<and> (distinct (map Name (Environments (Spec d)))
        \<and> Modified (snd (Plan x (NewGalaxy d c))) envName = Some contexts \<longrightarrow>
      length contexts = 1)"
proof (rule conjI)
  show "fst (Plan x (NewGalaxy d c)) = Return None \<longrightarrow>
     fst (Plan x (snd (Plan x (NewGalaxy d c)))) = Return None
     \<and> envOriginalNs (snd (Plan x (snd (Plan x (NewGalaxy d c))))) envName
         = envOriginalNs (snd (Plan x (NewGalaxy d c))) envName
     \<and> Modified (snd (Plan x (snd (Plan x (NewGalaxy d c))))) envName
         = map_option (\<lambda>cs. cs @ cs) (Modified (snd (Plan x (NewGalaxy d c))) envName)"
  proof
    let ?g0 = "NewGalaxy d c :: 'a Galaxy"
    assume ok: "fst (Plan x ?g0) = Return None"
    from Plan_as_writes [of x ?g0] obtain ws where
      ws: "snd (Plan x ?g0) = Plan_writes ws ?g0"
      "\<forall>h. dotGalaxy h = dotGalaxy ?g0 \<and> cfg h = cfg ?g0 \<longrightarrow>
            Plan x h = (fst (Plan x ?g0), Plan_writes ws h)"
      by blast
    let ?g1 = "Plan_writes ws ?g0"
    have "dotGalaxy ?g1 = dotGalaxy ?g0 \<and> cfg ?g1 = cfg ?g0" by simp
    with ws(2) have p2: "Plan x ?g1 = (fst (Plan x ?g0), Plan_writes ws ?g1)" by blast
    have e0: "Modified ?g0 = Map.empty" "envOriginalNs ?g0 = Map.empty"
      by (simp_all add: NewGalaxy_def)
    have m1: "Modified ?g1 envName =
        (if envName \<in> fst ` set ws
         then Some (map (fst \<circ> snd) (filter (\<lambda>w. fst w = envName) ws)) else None)"
      by (simp add: Plan_writes_Modified e0 slice_at_def)
    have m2: "Modified (Plan_writes ws ?g1) envName =
        (if envName \<in> fst ` set ws
         then Some (slice_at (Modified ?g1) envName
                      @ map (fst \<circ> snd) (filter (\<lambda>w. fst w = envName) ws))
         else Modified ?g1 envName)"
      by (rule Plan_writes_Modified)
    have m: "Modified (Plan_writes ws ?g1) envName
        = map_option (\<lambda>cs. cs @ cs) (Modified ?g1 envName)"
      unfolding m2 by (simp add: m1 slice_at_def)
    have o: "envOriginalNs (Plan_writes ws ?g1) envName = envOriginalNs ?g1 envName"
      by (simp add: Plan_writes_envOriginalNs [of ws ?g1] Plan_writes_envOriginalNs [of ws ?g0] e0
            split: option.splits)
    from ok p2 m o show "fst (Plan x (snd (Plan x ?g0))) = Return None
       \<and> envOriginalNs (snd (Plan x (snd (Plan x ?g0)))) envName
           = envOriginalNs (snd (Plan x ?g0)) envName
       \<and> Modified (snd (Plan x (snd (Plan x ?g0)))) envName
           = map_option (\<lambda>cs. cs @ cs) (Modified (snd (Plan x ?g0)) envName)"
      unfolding ws(1) by simp
  qed
next
  show "distinct (map Name (Environments (Spec d)))
        \<and> Modified (snd (Plan x (NewGalaxy d c))) envName = Some contexts \<longrightarrow>
      length contexts = 1"
  proof
    assume a: "distinct (map Name (Environments (Spec d)))
        \<and> Modified (snd (Plan x (NewGalaxy d c))) envName = Some contexts"
    let ?g0 = "NewGalaxy d c :: 'a Galaxy"
    have e0: "Modified ?g0 envName = None" "slice_at (Modified ?g0) envName = []"
      "dotGalaxy ?g0 = d"
      by (simp_all add: NewGalaxy_def slice_at_def)
    from a have "count_list (ListEnvironments d) envName \<le> 1"
      unfolding ListEnvironments_map
      by (cases "envName \<in> set (map Name (Environments (Spec d)))")
         (simp_all add: count_list_distinct)
    with Plan_once_per_listing [of x ?g0 envName] a show "length contexts = 1"
      unfolding e0 by auto
  qed
qed

text \<open>The small repository, planned twice for \<open>dev\<close>.\<close>

theorem Plan_twice_witness:
  "fst (Plan example_externals
          (NewGalaxy (example_dotGalaxy [''app'', ''db'']) (example_config [''dev''] False)))
     = Return None
   \<and> fst (Plan example_externals (example_planned False)) = Return None
   \<and> envOriginalNs (snd (Plan example_externals (example_planned False))) ''dev''
       = Some [(''app-dev'', ''app''), (''db-dev'', ''db'')]
   \<and> map_option length (Modified (example_planned False) ''dev'') = Some 1
   \<and> map_option length (Modified (snd (Plan example_externals (example_planned False))) ''dev'')
       = Some 2"
proof -
  let ?d = "example_dotGalaxy [''app'', ''db'']"
  let ?g = "NewGalaxy ?d (example_config [''dev''] False) :: Context Galaxy"
  have h: "fst (Plan example_externals ?g) = Return None" by (simp add: example_Plan)
  have e: "envOriginalNs (example_planned False) ''dev''
      = Some [(''app-dev'', ''app''), (''db-dev'', ''db'')]"
    by (simp add: example_planned_eq)
  obtain cs where cs: "Modified (example_planned False) ''dev'' = Some cs"
    by (simp add: example_planned_eq)
  have n: "distinct (map Name (Environments (Spec ?d)))"
    by (simp add: example_dotGalaxy_def example_environment_def)
  from Plan_twice [where x = example_externals and d = ?d
      and c = "example_config [''dev''] False" and envName = "''dev''" and contexts = cs] h n cs
  have "fst (Plan example_externals (example_planned False)) = Return None
     \<and> envOriginalNs (snd (Plan example_externals (example_planned False))) ''dev''
         = envOriginalNs (example_planned False) ''dev''
     \<and> Modified (snd (Plan example_externals (example_planned False))) ''dev''
         = map_option (\<lambda>cs. cs @ cs) (Modified (example_planned False) ''dev'')
     \<and> length cs = 1"
    unfolding example_planned_def by blast
  with h e cs show ?thesis by simp
qed

section \<open>Planned data and original namespaces go together\<close>

lemma planned_states_invariant:
  "planned_states d c g \<Longrightarrow>
     cfg g = c \<and> dotGalaxy g = d \<and> (Modified g e = None) = (envOriginalNs g e = None)"
proof (induction rule: planned_states.induct)
  case (new d c)
  show ?case by (simp add: NewGalaxy_def)
next
  case (plan d c g x)
  from Plan_as_writes [of x g] obtain ws where ws: "snd (Plan x g) = Plan_writes ws g" by blast
  from plan.IH have "(Modified g e = None) = (envOriginalNs g e = None)" by simp
  then have "(Modified (Plan_writes ws g) e = None) = (envOriginalNs (Plan_writes ws g) e = None)"
    by (rule Plan_writes_invariant)
  with plan.IH show ?case unfolding ws by simp
qed

text \<open>
  C10. The callback of \<open>Plan\<close> either leaves the state as it is or writes the entry of
  the environment in \<open>envOriginalNs\<close> and in \<open>Modified\<close> in one step. So, after
  \<^verbatim>\<open>NewGalaxy\<close> and any number of calls of \<open>Plan\<close>, an environment name has an entry in
  \<open>Modified\<close> if and only if it has one in \<open>envOriginalNs\<close>, and the second presence
  check of \<open>probeSingleEnv\<close> never fails once the first has passed.
\<close>

theorem planned_data_together:
  "(snd (Plan_fn x envName ctx g) = g
      \<or> (\<exists>modified originalNs. snd (Plan_fn x envName ctx g) =
            g\<lparr>envOriginalNs := (envOriginalNs g)(envName \<mapsto> originalNs),
              Modified := (Modified g)(envName \<mapsto> slice_at (Modified g) envName @ [modified])\<rparr>))
   \<and> (planned_states d c h \<longrightarrow>
        (Modified h e = None) = (envOriginalNs h e = None)
        \<and> (GetEnvironments (cfg h) = [e] \<and> Modified h e \<noteq> None \<longrightarrow>
             probeSingleEnv h = Inr e))"
proof (intro conjI impI)
  show "snd (Plan_fn x envName ctx g) = g
      \<or> (\<exists>modified originalNs. snd (Plan_fn x envName ctx g) =
            g\<lparr>envOriginalNs := (envOriginalNs g)(envName \<mapsto> originalNs),
              Modified := (Modified g)(envName \<mapsto> slice_at (Modified g) envName @ [modified])\<rparr>)"
    by (auto simp: Plan_fn_def split: sum.splits)
next
  assume "planned_states d c h"
  then show "(Modified h e = None) = (envOriginalNs h e = None)"
    using planned_states_invariant by blast
next
  assume p: "planned_states d c h"
    and a: "GetEnvironments (cfg h) = [e] \<and> Modified h e \<noteq> None"
  from p have "(Modified h e = None) = (envOriginalNs h e = None)"
    using planned_states_invariant by blast
  with a show "probeSingleEnv h = Inr e"
    by (auto simp: probeSingleEnv_def)
qed

text \<open>The small repository after one call of \<open>Plan\<close> for \<open>dev\<close>.\<close>

theorem planned_data_together_witness:
  "planned_states (example_dotGalaxy [''app'', ''db'']) (example_config [''dev''] False)
     (example_planned False)
   \<and> Modified (example_planned False) ''dev'' \<noteq> None
   \<and> envOriginalNs (example_planned False) ''dev'' \<noteq> None
   \<and> probeSingleEnv (example_planned False) = Inr ''dev''"
proof -
  have p: "planned_states (example_dotGalaxy [''app'', ''db'']) (example_config [''dev''] False)
     (example_planned False)"
    unfolding example_planned_def by (rule planned_states.plan) (rule planned_states.new)
  have m: "GetEnvironments (cfg (example_planned False)) = [''dev'']
      \<and> Modified (example_planned False) ''dev'' \<noteq> None"
    by (simp add: example_planned_eq example_config_def)
  from planned_data_together [where h = "example_planned False" and e = "''dev''"
      and d = "example_dotGalaxy [''app'', ''db'']" and c = "example_config [''dev''] False"
      and g = "example_planned False" and x = example_externals and envName = "''dev''"
      and ctx = "[]"] p m
  show ?thesis by blast
qed

section \<open>The first error of a pass\<close>

lemma Loop_namespaces_append:
  "Loop_namespaces x d exts (pre @ post) ctx =
     (case Loop_namespaces x d exts pre ctx of
        Inl r \<Rightarrow> Inl r
      | Inr ctx' \<Rightarrow> Loop_namespaces x d exts post ctx')"
  by (induction pre arbitrary: ctx) (auto split: sum.splits)

lemma Loop_environments_append:
  "Loop_environments x d exts fn pre g = (Return None, g1) \<Longrightarrow>
     Loop_environments x d exts fn (pre @ post) g = Loop_environments x d exts fn post g1"
proof (induction pre arbitrary: g)
  case Nil
  then show ?case by simp
next
  case (Cons env pre)
  show ?case
  proof (cases "Loop_namespaces x d exts (ListNamespaces d) (newContext x)")
    case (Inl r)
    have "Loop_namespaces x d exts nss c \<noteq> Inl (Return None)" for nss c
      by (induction nss arbitrary: c) (auto split: sum.splits)
    with Inl Cons.prems show ?thesis by auto
  next
    case (Inr ctx)
    obtain r g' where f: "fn env ctx g = (r, g')" by (cases "fn env ctx g")
    show ?thesis
    proof (cases r)
      case None
      with Inr f Cons.prems have "Loop_environments x d exts fn pre g' = (Return None, g1)"
        by simp
      from Cons.IH [OF this] Inr f None show ?thesis by simp
    next
      case (Some err)
      with Inr f Cons.prems show ?thesis by simp
    qed
  qed
qed

text \<open>
  A pass stops at its first failure. In the loop over the namespaces, after the
  namespaces \<open>pre\<close> were inspected, an error of \<open>GetNamespaceDir\<close> is returned, and an
  error of \<^verbatim>\<open>InspectDir\<close> ends in \<^verbatim>\<open>logger.Fatalf\<close>. In the loop over the environments,
  after the callback returned \<^verbatim>\<open>nil\<close> for the environments \<open>epre\<close>, an error of the
  callback is returned, with the state that the callbacks left; the callback of \<open>Plan\<close>
  leaves the state as it is when it fails.
\<close>

lemma Loop_first_error:
  "(Loop_namespaces x d exts pre ctx0 = Inr ctx1 \<and> GetNamespaceDir x d ns = Inl err \<longrightarrow>
      Loop_namespaces x d exts (pre @ ns # post) ctx0 = Inl (Return (Some err)))
   \<and> (Loop_namespaces x d exts pre ctx0 = Inr ctx1 \<and> GetNamespaceDir x d ns = Inr dir
        \<and> inspectDir x ctx1 ns dir exts = Inl err \<longrightarrow>
      Loop_namespaces x d exts (pre @ ns # post) ctx0 = Inl (Exit err))
   \<and> (Loop_environments x d exts fn epre g = (Return None, g1)
        \<and> Loop_namespaces x d exts (ListNamespaces d) (newContext x) = Inr ctx
        \<and> fn env ctx g1 = (Some err, g2) \<longrightarrow>
      Loop_environments x d exts fn (epre @ env # epost) g = (Return (Some err), g2))
   \<and> (Loop_namespaces x d exts (ListNamespaces d) (newContext x) = Inl r \<longrightarrow>
      Loop_environments x d exts fn (env # epost) g = (r, g))
   \<and> (fst (Plan_fn x env ctx g) \<noteq> None \<longrightarrow> snd (Plan_fn x env ctx g) = g)"
proof (intro conjI impI)
  assume "Loop_namespaces x d exts pre ctx0 = Inr ctx1 \<and> GetNamespaceDir x d ns = Inl err"
  then show "Loop_namespaces x d exts (pre @ ns # post) ctx0 = Inl (Return (Some err))"
    by (simp add: Loop_namespaces_append)
next
  assume "Loop_namespaces x d exts pre ctx0 = Inr ctx1 \<and> GetNamespaceDir x d ns = Inr dir
        \<and> inspectDir x ctx1 ns dir exts = Inl err"
  then show "Loop_namespaces x d exts (pre @ ns # post) ctx0 = Inl (Exit err)"
    by (simp add: Loop_namespaces_append)
next
  assume a: "Loop_environments x d exts fn epre g = (Return None, g1)
        \<and> Loop_namespaces x d exts (ListNamespaces d) (newContext x) = Inr ctx
        \<and> fn env ctx g1 = (Some err, g2)"
  then have "Loop_environments x d exts fn (epre @ env # epost) g
      = Loop_environments x d exts fn (env # epost) g1"
    by (simp add: Loop_environments_append)
  with a show "Loop_environments x d exts fn (epre @ env # epost) g = (Return (Some err), g2)"
    by simp
next
  assume "Loop_namespaces x d exts (ListNamespaces d) (newContext x) = Inl r"
  then show "Loop_environments x d exts fn (env # epost) g = (r, g)" by simp
next
  assume "fst (Plan_fn x env ctx g) \<noteq> None"
  then show "snd (Plan_fn x env ctx g) = g"
    by (auto simp: Plan_fn_def split: sum.splits if_splits)
qed

text \<open>
  C7. In the small repository with a namespace \<open>gone\<close> that has no directory, the
  inspection of \<open>gone\<close> fails for the first environment. \<open>Plan\<close> and \<open>Inspect\<close> do
  not return that error: the pass ends in \<^verbatim>\<open>logger.Fatalf\<close>, which ends the process.
\<close>

theorem Loop_inspection_failure_exits:
  "Plan example_externals
      (NewGalaxy (example_dotGalaxy [''app'', ''gone'']) (example_config [] False))
     = (Exit (NotFoundError ''ns/gone''),
        NewGalaxy (example_dotGalaxy [''app'', ''gone'']) (example_config [] False))
   \<and> Inspect example_externals
      (NewGalaxy (example_dotGalaxy [''app'', ''gone'']) (example_config [] False))
     = (Exit (NotFoundError ''ns/gone''),
        NewGalaxy (example_dotGalaxy [''app'', ''gone'']) (example_config [] False))
   \<and> fst (Plan example_externals
      (NewGalaxy (example_dotGalaxy [''app'', ''gone'']) (example_config [] False)))
     \<noteq> Return (Some (NotFoundError ''ns/gone''))"
  by (simp add: Plan_def Inspect_def NewGalaxy_def Loop_defs example_defs)

section \<open>Inspect\<close>

lemma Loop_environments_Inspect:
  assumes n: "Loop_namespaces x d exts (ListNamespaces d) (newContext x) = Inr ctx"
  shows "Loop_environments x d exts Inspect_fn envs g =
     (Return None,
      g\<lparr>original := (\<lambda>e. if count_list envs e = 0 then original g e
                          else Some (slice_at (original g) e @ replicate (count_list envs e) ctx))\<rparr>)"
proof (induction envs arbitrary: g)
  case Nil
  then show ?case by simp
next
  case (Cons env envs)
  let ?g = "g\<lparr>original := (original g)(env \<mapsto> slice_at (original g) env @ [ctx])\<rparr>"
  have f: "Inspect_fn env ctx g = (None, ?g)" by (simp add: Inspect_fn_def)
  have "(\<lambda>e. if count_list envs e = 0 then original ?g e
              else Some (slice_at (original ?g) e @ replicate (count_list envs e) ctx))
      = (\<lambda>e. if count_list (env # envs) e = 0 then original g e
              else Some (slice_at (original g) e @ replicate (count_list (env # envs) e) ctx))"
    by (rule ext) (auto simp: slice_at_def replicate_append_same)
  with n f Cons.IH [of ?g] show ?case by simp
qed

text \<open>
  C4, as stated, fails: in the small repository, with its two namespaces, \<open>Inspect\<close>
  does not append a context per namespace under \<open>dev\<close>; it appends one context, which
  holds both namespaces.
\<close>

theorem Inspect_contexts_counterexample:
  "map_option length (original (snd (Inspect example_externals
       (NewGalaxy (example_dotGalaxy [''app'', ''db'']) (example_config [] False)))) ''dev'')
     \<noteq> Some (length (ListNamespaces (example_dotGalaxy [''app'', ''db''])))
   \<and> map_option (map (map fst)) (original (snd (Inspect example_externals
       (NewGalaxy (example_dotGalaxy [''app'', ''db'']) (example_config [] False)))) ''dev'')
     = Some [[''app'', ''db'']]"
  by (simp add: Inspect_def Inspect_fn_def NewGalaxy_def slice_at_def Loop_defs example_defs)

text \<open>
  C4, amended. \<open>Inspect\<close> returns a \<open>NotFoundError\<close> whose message ends in the path
  when the base directory of the namespaces is not a directory, with the state as it was:
  no namespace is inspected and nothing is added to \<open>original\<close>. When the base
  directory exists and the inspection of the namespaces succeeds, giving the context
  \<open>ctx\<close> that holds every namespace, \<open>Inspect\<close> returns without error and has appended
  that one context to the entry of \<open>original\<close> for every environment name, once for
  each time the name is listed; the other entries and the planned data are as they were.
\<close>

theorem Inspect_fails_fast_or_appends:
  "(\<not> isDir x (BaseDir (Namespaces (Spec (dotGalaxy g)))) \<longrightarrow>
      Inspect x g =
        (Return (Some (NotFoundError
           (''base directory not found at: '' @ BaseDir (Namespaces (Spec (dotGalaxy g)))))), g))
   \<and> (isDir x (BaseDir (Namespaces (Spec (dotGalaxy g))))
        \<and> Loop_namespaces x (dotGalaxy g) (Extensions (Namespaces (Spec (dotGalaxy g))))
             (ListNamespaces (dotGalaxy g)) (newContext x) = Inr ctx \<longrightarrow>
      fst (Inspect x g) = Return None
      \<and> original (snd (Inspect x g)) envName =
          (if envName \<in> set (ListEnvironments (dotGalaxy g))
           then Some (slice_at (original g) envName
                  @ replicate (count_list (ListEnvironments (dotGalaxy g)) envName) ctx)
           else original g envName)
      \<and> Modified (snd (Inspect x g)) = Modified g
      \<and> envOriginalNs (snd (Inspect x g)) = envOriginalNs g)"
proof (intro conjI impI)
  assume "\<not> isDir x (BaseDir (Namespaces (Spec (dotGalaxy g))))"
  then show "Inspect x g =
        (Return (Some (NotFoundError
           (''base directory not found at: '' @ BaseDir (Namespaces (Spec (dotGalaxy g)))))), g)"
    by (simp add: Inspect_def)
next
  assume a: "isDir x (BaseDir (Namespaces (Spec (dotGalaxy g))))
        \<and> Loop_namespaces x (dotGalaxy g) (Extensions (Namespaces (Spec (dotGalaxy g))))
             (ListNamespaces (dotGalaxy g)) (newContext x) = Inr ctx"
  then have n: "Loop_namespaces x (dotGalaxy g) (Extensions (Namespaces (Spec (dotGalaxy g))))
             (ListNamespaces (dotGalaxy g)) (newContext x) = Inr ctx" by simp
  from a have i: "Inspect x g = Loop_environments x (dotGalaxy g)
      (Extensions (Namespaces (Spec (dotGalaxy g)))) Inspect_fn
      (ListEnvironments (dotGalaxy g)) g"
    by (simp add: Inspect_def Loop_def)
  show "fst (Inspect x g) = Return None"
    unfolding i Loop_environments_Inspect [OF n] by simp
  show "original (snd (Inspect x g)) envName =
          (if envName \<in> set (ListEnvironments (dotGalaxy g))
           then Some (slice_at (original g) envName
                  @ replicate (count_list (ListEnvironments (dotGalaxy g)) envName) ctx)
           else original g envName)"
    unfolding i Loop_environments_Inspect [OF n] by (simp add: count_list_0_iff)
  show "Modified (snd (Inspect x g)) = Modified g"
    unfolding i Loop_environments_Inspect [OF n] by simp
  show "envOriginalNs (snd (Inspect x g)) = envOriginalNs g"
    unfolding i Loop_environments_Inspect [OF n] by simp
qed

text \<open>
  The small repository, and the same repository in a directory tree where the base
  directory \<open>ns\<close> is missing.
\<close>

theorem Inspect_fails_fast_or_appends_witness:
  "Inspect (example_externals\<lparr>isDir := (\<lambda>p. False)\<rparr>)
      (NewGalaxy (example_dotGalaxy [''app'', ''db'']) (example_config [] False))
     = (Return (Some (NotFoundError ''base directory not found at: ns'')),
        NewGalaxy (example_dotGalaxy [''app'', ''db'']) (example_config [] False))
   \<and> fst (Inspect example_externals
        (NewGalaxy (example_dotGalaxy [''app'', ''db'']) (example_config [] False))) = Return None
   \<and> original (snd (Inspect example_externals
        (NewGalaxy (example_dotGalaxy [''app'', ''db'']) (example_config [] False)))) ''prod''
      = Some [[(''app'', [\<lparr>namespace = ''app'', path = ''ns/app/web.yaml'',
                            fileName = ''web'', release = ''web''\<rparr>]),
               (''db'', [\<lparr>namespace = ''db'', path = ''ns/db/web.yaml'',
                            fileName = ''web'', release = ''web''\<rparr>])]]"
proof -
  let ?d = "example_dotGalaxy [''app'', ''db'']"
  let ?g = "NewGalaxy ?d (example_config [] False) :: Context Galaxy"
  let ?ctx = "[(''app'', [\<lparr>namespace = ''app'', path = ''ns/app/web.yaml'',
                            fileName = ''web'', release = ''web''\<rparr>]),
               (''db'', [\<lparr>namespace = ''db'', path = ''ns/db/web.yaml'',
                            fileName = ''web'', release = ''web''\<rparr>])]"
  have h1: "\<not> isDir (example_externals\<lparr>isDir := (\<lambda>p. False)\<rparr>)
      (BaseDir (Namespaces (Spec (dotGalaxy ?g))))" by simp
  have b: "BaseDir (Namespaces (Spec (dotGalaxy ?g))) = ''ns''"
    by (simp add: NewGalaxy_def example_dotGalaxy_def)
  have h2: "isDir example_externals (BaseDir (Namespaces (Spec (dotGalaxy ?g))))
        \<and> Loop_namespaces example_externals (dotGalaxy ?g)
             (Extensions (Namespaces (Spec (dotGalaxy ?g))))
             (ListNamespaces (dotGalaxy ?g)) (newContext example_externals) = Inr ?ctx"
    by (simp add: NewGalaxy_def Loop_defs example_defs)
  have l: "ListEnvironments (dotGalaxy ?g) = [''dev'', ''prod'']"
    by (simp add: NewGalaxy_def Loop_defs example_defs)
  have o: "original ?g ''prod'' = None" by (simp add: NewGalaxy_def)
  have c1: "Inspect (example_externals\<lparr>isDir := (\<lambda>p. False)\<rparr>) ?g
     = (Return (Some (NotFoundError ''base directory not found at: ns'')), ?g)"
    using Inspect_fails_fast_or_appends [where g = ?g
        and x = "example_externals\<lparr>isDir := (\<lambda>p. False)\<rparr>"] h1
    unfolding b by simp
  have c2: "fst (Inspect example_externals ?g) = Return None
      \<and> original (snd (Inspect example_externals ?g)) ''prod'' =
          (if ''prod'' \<in> set (ListEnvironments (dotGalaxy ?g))
           then Some (slice_at (original ?g) ''prod''
                  @ replicate (count_list (ListEnvironments (dotGalaxy ?g)) ''prod'') ?ctx)
           else original ?g ''prod'')"
    using Inspect_fails_fast_or_appends [where g = ?g and x = example_externals
        and ctx = ?ctx and envName = "''prod''"] h2
    by blast
  from c2 have "original (snd (Inspect example_externals ?g)) ''prod'' = Some [?ctx]"
    unfolding l by (simp add: slice_at_def o)
  with c1 c2 show ?thesis by simp
qed

section \<open>Colliding namespace names\<close>










end
